theory Spec2Isabelle
  imports Main "HOL-Library.Word" "HOL-Library.Multiset"
begin

section \<open>Values of the Go program\<close>

text \<open>
  The repository holds two versions of one command line program, both in \<open>src/main.go\<close>:
  the \<^emph>\<open>reflective\<close> version (lines 1 to 228), whose metadata is a fixed struct walked with
  \<open>reflect\<close>, and the \<^emph>\<open>map\<close> version (lines 229 to 445), whose metadata is a
  \<open>map[string]int\<close> and whose totals are sorted. Functions that exist in both versions
  carry the suffix \<open>_refl\<close> or \<open>_map\<close>; \<open>getWorkspaces\<close> is the same text in both.

  A Go \<open>int\<close> is a 64-bit two's complement integer on the usual platforms: \<open>+\<close> wraps
  around, comparison is signed.
\<close>

type_synonym goint = "64 word"

text \<open>A Go \<open>error\<close> value is represented by its message.\<close>

datatype error = Error (message: string)

text \<open>
  A \<open>map[string]int\<close>. The keys a \<open>range\<close> loop visits, and their order, are chosen by
  the Go runtime: a loop over a map takes the sequence of keys visited as an argument,
  and \<open>range_order\<close> says that a sequence is one the runtime can choose.
\<close>

type_synonym gomap = "string \<rightharpoonup> goint"

definition range_order :: "string list \<Rightarrow> gomap \<Rightarrow> bool" where
  "range_order ks m \<longleftrightarrow> distinct ks \<and> set ks = dom m"

text \<open>Reading a key of a \<open>map[string]int\<close>: the zero value when the key is absent.\<close>

definition index_map :: "gomap \<Rightarrow> string \<Rightarrow> goint" where
  "index_map m k = (case m k of None \<Rightarrow> 0 | Some v \<Rightarrow> v)"

subsection \<open>Decimal rendering\<close>

text \<open>
  \<open>strconv.Itoa\<close> and \<open>fmt.Sprint\<close> of an \<open>int\<close>: the decimal digits of the signed
  value, with a leading minus sign when it is negative.
\<close>

definition digit_char :: "nat \<Rightarrow> char" where
  "digit_char d = char_of (48 + d)"

function digits :: "nat \<Rightarrow> string" where
  "digits n = (if n < 10 then [digit_char n] else digits (n div 10) @ [digit_char (n mod 10)])"
  by pat_completeness auto
termination
  by (relation "measure id") auto

declare digits.simps [simp del]

definition Itoa :: "goint \<Rightarrow> string" where
  "Itoa i = (if sint i < 0 then CHR ''-'' # digits (nat (- sint i)) else digits (nat (sint i)))"

text \<open>
  Reading a decimal cell back (used only to state what a rendered column holds):
  \<open>None\<close> when the text is not an optional minus sign followed by digits.
\<close>

definition is_digit :: "char \<Rightarrow> bool" where
  "is_digit c \<longleftrightarrow> 48 \<le> (of_char c :: nat) \<and> (of_char c :: nat) \<le> 57"

definition digits_value :: "string \<Rightarrow> nat" where
  "digits_value s = foldl (\<lambda>acc c. acc * 10 + (of_char c - 48)) 0 s"

definition parse_decimal :: "string \<Rightarrow> int option" where
  "parse_decimal s =
     (case s of
        [] \<Rightarrow> None
      | c # cs \<Rightarrow>
          if c = CHR ''-'' then
            (if cs \<noteq> [] \<and> list_all is_digit cs then Some (- int (digits_value cs)) else None)
          else if list_all is_digit s then Some (int (digits_value s)) else None)"

subsection \<open>Strings\<close>

text \<open>
  A Go string is a sequence of bytes. \<open>strings.Split\<close> is modelled for a separator of
  one byte, its only use in the source (\<open>":"\<close>): the result has one more part than the
  text has separators, so the empty text gives one empty part.
\<close>

fun Split :: "string \<Rightarrow> char \<Rightarrow> string list" where
  "Split [] sep = [[]]"
| "Split (c # s) sep =
     (if c = sep then [] # Split s sep
      else (case Split s sep of [] \<Rightarrow> [[c]] | p # ps \<Rightarrow> (c # p) # ps))"

text \<open>
  \<open>strings.TrimSpace\<close> removes leading and trailing white space as defined by Unicode
  (\<open>unicode.IsSpace\<close>). On the bytes of the string these are the six ASCII characters
  tab, line feed, vertical tab, form feed, carriage return and space, and the UTF-8
  encodings of U+0085, U+00A0, U+1680, U+2000 to U+200A, U+2028, U+2029, U+202F, U+205F
  and U+3000.
\<close>

definition space_encodings :: "string list" where
  "space_encodings =
     map (\<lambda>c. [c]) [CHR 0x09, CHR 0x0A, CHR 0x0B, CHR 0x0C, CHR 0x0D, CHR 0x20]
     @ [[CHR 0xC2, CHR 0x85], [CHR 0xC2, CHR 0xA0], [CHR 0xE1, CHR 0x9A, CHR 0x80]]
     @ map (\<lambda>c. [CHR 0xE2, CHR 0x80, c])
         [CHR 0x80, CHR 0x81, CHR 0x82, CHR 0x83, CHR 0x84, CHR 0x85, CHR 0x86, CHR 0x87,
          CHR 0x88, CHR 0x89, CHR 0x8A, CHR 0xA8, CHR 0xA9, CHR 0xAF]
     @ [[CHR 0xE2, CHR 0x81, CHR 0x9F], [CHR 0xE3, CHR 0x80, CHR 0x80]]"

definition starts_with :: "string \<Rightarrow> string \<Rightarrow> bool" where
  "starts_with s e \<longleftrightarrow> e \<noteq> [] \<and> take (length e) s = e"

function trim_front :: "string list \<Rightarrow> string \<Rightarrow> string" where
  "trim_front encs s =
     (case find (starts_with s) encs of
        None \<Rightarrow> s
      | Some e \<Rightarrow> trim_front encs (drop (length e) s))"
  by pat_completeness auto
termination
proof (relation "measure (\<lambda>(encs, s). length s)")
  show "wf (measure (\<lambda>(encs, s). length s))" by simp
next
  fix encs :: "string list" and s e :: string
  assume "find (starts_with s) encs = Some e"
  then have "starts_with s e" by (auto simp: find_Some_iff)
  then have "e \<noteq> []" and "take (length e) s = e" by (simp_all add: starts_with_def)
  then have "s \<noteq> []" by auto
  with \<open>e \<noteq> []\<close> show "((encs, drop (length e) s), (encs, s)) \<in> measure (\<lambda>(encs, s). length s)"
    by simp
qed

declare trim_front.simps [simp del]

definition TrimSpace :: "string \<Rightarrow> string" where
  "TrimSpace s = rev (trim_front (map rev space_encodings) (rev (trim_front space_encodings s)))"

subsection \<open>HTTP headers\<close>

text \<open>
  \<open>http.Header\<close> is a \<open>map[string][]string\<close>. \<open>Header.Set\<close> stores the single value
  under the canonical form of the key and \<open>Header.Get\<close> reads the first value stored
  under the canonical form of the key (\<open>textproto.CanonicalMIMEHeaderKey\<close>): when every
  byte of the key is a token character, the first letter and every letter after a hyphen
  become upper case and every other letter lower case; a key with any other byte is left
  as it is.
\<close>

type_synonym Header = "string \<rightharpoonup> string list"

definition is_lower :: "char \<Rightarrow> bool" where
  "is_lower c \<longleftrightarrow> 97 \<le> (of_char c :: nat) \<and> (of_char c :: nat) \<le> 122"

definition is_upper :: "char \<Rightarrow> bool" where
  "is_upper c \<longleftrightarrow> 65 \<le> (of_char c :: nat) \<and> (of_char c :: nat) \<le> 90"

definition validHeaderFieldByte :: "char \<Rightarrow> bool" where
  "validHeaderFieldByte c \<longleftrightarrow>
     is_lower c \<or> is_upper c \<or> is_digit c
     \<or> c \<in> set [CHR 0x21, CHR 0x23, CHR 0x24, CHR 0x25, CHR 0x26, CHR 0x27, CHR 0x2A, CHR 0x2B,
                 CHR 0x2D, CHR 0x2E, CHR 0x5E, CHR 0x5F, CHR 0x60, CHR 0x7C, CHR 0x7E]"

fun canonical_case :: "bool \<Rightarrow> string \<Rightarrow> string" where
  "canonical_case upper [] = []"
| "canonical_case upper (c # s) =
     (let c' = (if upper \<and> is_lower c then char_of (of_char c - (32 :: nat))
                else if \<not> upper \<and> is_upper c then char_of (of_char c + (32 :: nat))
                else c)
      in c' # canonical_case (c' = CHR 0x2D) s)"

definition CanonicalMIMEHeaderKey :: "string \<Rightarrow> string" where
  "CanonicalMIMEHeaderKey s = (if list_all validHeaderFieldByte s then canonical_case True s else s)"

definition Header_Set :: "Header \<Rightarrow> string \<Rightarrow> string \<Rightarrow> Header" where
  "Header_Set h key val = h(CanonicalMIMEHeaderKey key \<mapsto> [val])"

definition Header_Get :: "Header \<Rightarrow> string \<Rightarrow> string" where
  "Header_Get h key =
     (case h (CanonicalMIMEHeaderKey key) of None \<Rightarrow> [] | Some [] \<Rightarrow> [] | Some (v # _) \<Rightarrow> v)"

section \<open>The world outside the program\<close>

text \<open>
  The operating system, the network, the URL and JSON parsers of the standard library
  and the runtime's choice of iteration order are arguments of the model: the program's
  functions take a \<open>world\<close> and are pure in it.
  \<^item> \<open>Getenv\<close>: \<open>os.Getenv\<close>, the empty string for a variable that is not set;
  \<^item> \<open>http_Get\<close> and \<open>client_Do\<close>: the answer of the server, or the error of the
    transport, taken to depend on the request only; a \<open>Response\<close> holds what
    \<open>ioutil.ReadAll\<close> of its body returns;
  \<^item> \<open>url_Parse\<close>: the error, if any, with which \<open>http.NewRequest\<close> refuses a URL;
  \<^item> \<open>Unmarshal_\<close>\<open>\<dots>\<close>: \<open>json.Unmarshal\<close> into a value of the named type;
  \<^item> \<open>rangeOrder\<close>: the keys of a map in the order in which a \<open>range\<close> loop visits them.
\<close>

datatype Response = Response (ReadAll: "error + string")

record Request =
  Method :: string
  URL :: string
  Header :: Header

record Workspace =
  Name :: string
  ID :: string

record WorkspaceResponse =
  Data :: "Workspace list"

record Counts_struct =
  Plugins :: goint
  Targets :: goint
  Services :: goint
  Routes :: goint
  Upstreams :: goint

record Metadata_refl =
  Counts_refl :: Counts_struct

record Metadata_map =
  Counts_map :: gomap

record 'm WorkspaceMetadata =
  WorkspaceName :: string
  Meta :: 'm

record world =
  Getenv :: "string \<Rightarrow> string"
  http_Get :: "string \<Rightarrow> error + Response"
  url_Parse :: "string \<Rightarrow> error option"
  client_Do :: "Request \<Rightarrow> error + Response"
  Unmarshal_WorkspaceResponse :: "string \<Rightarrow> error + WorkspaceResponse"
  Unmarshal_Metadata_refl :: "string \<Rightarrow> error + Metadata_refl"
  Unmarshal_Metadata_map :: "string \<Rightarrow> error + Metadata_map"
  rangeOrder :: "gomap \<Rightarrow> string list"

definition NewRequest :: "world \<Rightarrow> string \<Rightarrow> string \<Rightarrow> error + Request" where
  "NewRequest w method url =
     (case url_Parse w url of
        Some err \<Rightarrow> Inl err
      | None \<Rightarrow> Inr \<lparr>Method = method, URL = url, Header = Map.empty\<rparr>)"

text \<open>
  What the program writes to standard output: a line of text, or a table handed to
  \<open>tablewriter\<close> (its header and the rows appended to it, in order).
\<close>

datatype printed = Line string | Table (header: "string list") (rows: "string list list")

text \<open>
  The command line after \<open>flag.Parse\<close>: the values of \<open>--kong-addr\<close>, \<open>--headers\<close>
  and (map version only) \<open>--meta\<close>, each with the default the source declares when the
  flag is not given (\<open>""\<close>, \<open>""\<close>, \<open>"counts"\<close>).
\<close>

record flags =
  flag_kong_addr :: string
  flag_headers :: string
  flag_meta :: string

text \<open>
  A run of \<open>main\<close>: the URLs given to \<open>http.Get\<close> and the requests given to
  \<open>client.Do\<close> so far, the variables \<open>counts\<close> and \<open>workspaceMetadataList\<close>, and
  what has been printed.
\<close>

record 'm run =
  gets :: "string list"
  sends :: "Request list"
  v_counts :: gomap
  v_workspaceMetadataList :: "'m WorkspaceMetadata list"
  out :: "printed list"

section \<open>Functions shared by both versions\<close>

text \<open>\<open>main\<close>, lines 48 to 54 and 272 to 278: the fallback of the admin address.\<close>

definition urlPtr_fallback :: "world \<Rightarrow> string \<Rightarrow> string" where
  "urlPtr_fallback w urlPtr =
     (if urlPtr = [] then
        (let urlPtr = Getenv w ''KONG_ADMIN_ADDR''
         in if urlPtr = [] then ''http://localhost:8001'' else urlPtr)
      else urlPtr)"

definition getWorkspaces :: "world \<Rightarrow> string \<Rightarrow> error + Workspace list" where
  "getWorkspaces w url =
     (case http_Get w url of
        Inl err \<Rightarrow> Inl err
      | Inr resp \<Rightarrow>
          (case ReadAll resp of
             Inl err \<Rightarrow> Inl err
           | Inr body \<Rightarrow>
               (case Unmarshal_WorkspaceResponse w body of
                  Inl err \<Rightarrow> Inl err
                | Inr response \<Rightarrow> Inr (Data response))))"

text \<open>
  \<open>for key, value := range m\<close>: the entries visited, for the key sequence \<open>ks\<close> that
  the runtime has chosen.
\<close>

definition range_entries :: "string list \<Rightarrow> gomap \<Rightarrow> (string \<times> goint) list" where
  "range_entries ks m = map (\<lambda>key. (key, index_map m key)) ks"

section \<open>The map version (lines 229 to 445)\<close>

text \<open>
  \<open>getMetadata\<close>, lines 347 to 380. \<open>metadataRequest_map\<close> is its first part, up to
  the call of \<open>client.Do\<close>: the request that is sent.
\<close>

definition metadataRequest_map :: "world \<Rightarrow> string \<Rightarrow> string \<Rightarrow> error + Request" where
  "metadataRequest_map w url headers =
     (case NewRequest w ''GET'' url of
        Inl err \<Rightarrow> Inl err
      | Inr req \<Rightarrow>
          Inr (if headers \<noteq> [] then
                 (let headerArr = Split headers (CHR '':'')
                  in if length headerArr = 2 then
                       req\<lparr>Header := Header_Set (Header req) (TrimSpace (headerArr ! 0))
                                         (TrimSpace (headerArr ! 1))\<rparr>
                     else req)
               else req))"

definition getMetadata_map :: "world \<Rightarrow> string \<Rightarrow> string \<Rightarrow> error + Metadata_map" where
  "getMetadata_map w url headers =
     (case metadataRequest_map w url headers of
        Inl err \<Rightarrow> Inl err
      | Inr req \<Rightarrow>
          (case client_Do w req of
             Inl err \<Rightarrow> Inl err
           | Inr resp \<Rightarrow>
               (case ReadAll resp of
                  Inl err \<Rightarrow> Inl err
                | Inr body \<Rightarrow>
                    (case Unmarshal_Metadata_map w body of
                       Inl err \<Rightarrow> Inl err
                     | Inr metadata \<Rightarrow> Inr metadata))))"

text \<open>\<open>updateCounts\<close>, lines 382 to 390; \<open>ks\<close> is the order of the \<open>range\<close> loop.\<close>

definition updateCounts_map :: "string list \<Rightarrow> gomap \<Rightarrow> gomap \<Rightarrow> gomap" where
  "updateCounts_map ks metaCounts counts =
     fold (\<lambda>(key, val) counts.
             case counts key of
               Some cnt \<Rightarrow> counts(key \<mapsto> cnt + val)
             | None \<Rightarrow> counts(key \<mapsto> val))
          (range_entries ks metaCounts) counts"

text \<open>\<open>printWorkspaceMetadataTable\<close>, lines 392 to 407.\<close>

definition printWorkspaceMetadataTable_map :: "Metadata_map WorkspaceMetadata list \<Rightarrow> printed" where
  "printWorkspaceMetadataTable_map metadataList =
     Table [''Workspace Name'', ''Plugins'', ''Targets'', ''Services'', ''Routes'', ''Upstreams'']
       (map (\<lambda>metadata.
               (let plugins = Itoa (index_map (Counts_map (Meta metadata)) ''plugins'');
                    targets = Itoa (index_map (Counts_map (Meta metadata)) ''targets'');
                    services = Itoa (index_map (Counts_map (Meta metadata)) ''services'');
                    routes = Itoa (index_map (Counts_map (Meta metadata)) ''routes'');
                    upstreams = Itoa (index_map (Counts_map (Meta metadata)) ''upstreams'')
                in [WorkspaceName metadata, plugins, targets, services, routes, upstreams]))
            metadataList)"

text \<open>
  \<open>sort.Slice\<close> sorts by the given \<open>less\<close> and does not promise to keep equal
  elements in their order. It is modelled by insertion sort; since the slice it is given
  here is filled in the arbitrary order of a \<open>range\<close> loop, every outcome of any
  correct sort is the outcome of this one for some order of the loop.
\<close>

fun insert_Slice :: "('a \<Rightarrow> 'a \<Rightarrow> bool) \<Rightarrow> 'a \<Rightarrow> 'a list \<Rightarrow> 'a list" where
  "insert_Slice lt x [] = [x]"
| "insert_Slice lt x (y # ys) =
     (if lt y x then y # insert_Slice lt x ys else x # y # ys)"

fun sort_Slice :: "('a \<Rightarrow> 'a \<Rightarrow> bool) \<Rightarrow> 'a list \<Rightarrow> 'a list" where
  "sort_Slice lt [] = []"
| "sort_Slice lt (x # xs) = insert_Slice lt x (sort_Slice lt xs)"

text \<open>\<open>printCountsTable\<close>, lines 409 to 445; \<open>ks\<close> is the order of the \<open>range\<close> loop.\<close>

record MetaField =
  Field :: string
  Count :: goint

definition printCountsTable_map :: "string list \<Rightarrow> gomap \<Rightarrow> goint \<Rightarrow> printed" where
  "printCountsTable_map ks counts workspaceCount =
     (let metaFields = map (\<lambda>(field, cnt). \<lparr>Field = field, Count = cnt\<rparr>) (range_entries ks counts);
          metaFields = sort_Slice (\<lambda>a b. sint (Count a) < sint (Count b)) metaFields
      in Table [''Meta Field'', ''Count'']
           ([''Workspaces'', Itoa workspaceCount]
            # map (\<lambda>metaField. [Field metaField, Itoa (Count metaField)]) metaFields))"

text \<open>\<open>main\<close>, lines 294 to 311: the loop over the workspaces.\<close>

fun fetch_loop_map ::
  "world \<Rightarrow> string \<Rightarrow> string \<Rightarrow> Workspace list \<Rightarrow> Metadata_map run \<Rightarrow> Metadata_map run" where
  "fetch_loop_map w urlPtr headers [] r = r"
| "fetch_loop_map w urlPtr headers (workspace # workspaces) r =
     (let metaURL = urlPtr @ ''/workspaces/'' @ Name workspace @ ''/meta'';
          r = r\<lparr>sends := sends r @ (case metadataRequest_map w metaURL headers of
                                      Inl err \<Rightarrow> [] | Inr req \<Rightarrow> [req])\<rparr>
      in case getMetadata_map w metaURL headers of
           Inl err \<Rightarrow>
             fetch_loop_map w urlPtr headers workspaces
               (r\<lparr>out := out r @ [Line (''Error getting metadata for workspace '' @ Name workspace
                                          @ '': '' @ message err)]\<rparr>)
         | Inr meta \<Rightarrow>
             fetch_loop_map w urlPtr headers workspaces
               (r\<lparr>v_counts := updateCounts_map (rangeOrder w (Counts_map meta)) (Counts_map meta)
                                 (v_counts r),
                  v_workspaceMetadataList := v_workspaceMetadataList r
                     @ [\<lparr>WorkspaceName = Name workspace, Meta = meta\<rparr>]\<rparr>))"

text \<open>\<open>main\<close>, lines 265 to 324.\<close>

definition main_map :: "flags \<Rightarrow> world \<Rightarrow> Metadata_map run" where
  "main_map fl w =
     (let urlPtr = urlPtr_fallback w (flag_kong_addr fl);
          workspacesURL = urlPtr @ ''/workspaces'';
          r = \<lparr>gets = [workspacesURL], sends = [], v_counts = Map.empty,
               v_workspaceMetadataList = [], out = []\<rparr>
      in case getWorkspaces w workspacesURL of
           Inl err \<Rightarrow> r\<lparr>out := [Line (''Error getting workspaces: '' @ message err)]\<rparr>
         | Inr workspaces \<Rightarrow>
             (let r = fetch_loop_map w urlPtr (flag_headers fl) workspaces r;
                  r = (if flag_meta fl = ''workspace'' \<or> flag_meta fl = ''all'' then
                         r\<lparr>out := out r @ [Line ''Individual Workspace Metadata:'',
                                           printWorkspaceMetadataTable_map (v_workspaceMetadataList r)]\<rparr>
                       else r)
              in if flag_meta fl = ''counts'' \<or> flag_meta fl = ''all'' then
                   r\<lparr>out := out r @ [Line ''Total Meta Field Counts:'',
                                     printCountsTable_map (rangeOrder w (v_counts r)) (v_counts r)
                                       (of_nat (length (v_workspaceMetadataList r)))]\<rparr>
                 else r))"

section \<open>The reflective version (lines 1 to 228)\<close>

text \<open>\<open>getHeaders\<close>, lines 209 to 228.\<close>

definition getHeaders :: "world \<Rightarrow> string \<Rightarrow> Header" where
  "getHeaders w headersFlag =
     (let headers = Map.empty;
          headers =
            (if headersFlag \<noteq> [] then
               (let headerParts = Split headersFlag (CHR '':'')
                in if length headerParts = 2 then
                     (let headerKey = TrimSpace (headerParts ! 0);
                          headerValue = TrimSpace (headerParts ! 1)
                      in Header_Set headers headerKey headerValue)
                   else headers)
             else headers);
          token = Getenv w ''X_ADMIN_TOKEN''
      in if token \<noteq> [] then Header_Set headers ''x-admin-token'' token else headers)"

text \<open>
  \<open>getMetadata\<close>, lines 122 to 150. \<open>metadataRequest_refl\<close> is its first part, up to
  the call of \<open>client.Do\<close>: the request that is sent.
\<close>

definition metadataRequest_refl :: "world \<Rightarrow> string \<Rightarrow> Header \<Rightarrow> error + Request" where
  "metadataRequest_refl w url headers =
     (case NewRequest w ''GET'' url of
        Inl err \<Rightarrow> Inl err
      | Inr req \<Rightarrow> Inr (req\<lparr>Header := headers\<rparr>))"

definition getMetadata_refl :: "world \<Rightarrow> string \<Rightarrow> Header \<Rightarrow> error + Metadata_refl" where
  "getMetadata_refl w url headers =
     (case metadataRequest_refl w url headers of
        Inl err \<Rightarrow> Inl err
      | Inr req \<Rightarrow>
          (case client_Do w req of
             Inl err \<Rightarrow> Inl err
           | Inr resp \<Rightarrow>
               (case ReadAll resp of
                  Inl err \<Rightarrow> Inl err
                | Inr body \<Rightarrow>
                    (case Unmarshal_Metadata_refl w body of
                       Inl err \<Rightarrow> Inl err
                     | Inr meta \<Rightarrow> Inr meta))))"

text \<open>
  What \<open>reflect\<close> shows of a value: its kind, and for a struct the names and values of
  its fields in the order of declaration. \<open>ValueOf_Metadata\<close> is \<open>reflect.ValueOf\<close> of
  a \<open>Metadata\<close> (lines 31 to 40), given as the field list of the struct.
\<close>

datatype reflect_Value =
  KindInt goint
| KindStruct "(string \<times> reflect_Value) list"
| KindOther

definition ValueOf_Metadata :: "Metadata_refl \<Rightarrow> (string \<times> reflect_Value) list" where
  "ValueOf_Metadata meta =
     [(''Counts'', KindStruct
        [(''Plugins'', KindInt (Plugins (Counts_refl meta))),
         (''Targets'', KindInt (Targets (Counts_refl meta))),
         (''Services'', KindInt (Services (Counts_refl meta))),
         (''Routes'', KindInt (Routes (Counts_refl meta))),
         (''Upstreams'', KindInt (Upstreams (Counts_refl meta)))])]"

text \<open>
  \<open>updateCounts\<close>, lines 152 to 169, on the fields of the struct it is given:
  \<open>counts[field.Name] += v\<close> reads the zero value for an absent key.
\<close>

function updateCounts_refl :: "(string \<times> reflect_Value) list \<Rightarrow> gomap \<Rightarrow> gomap" where
  "updateCounts_refl [] counts = counts"
| "updateCounts_refl ((name, KindInt v) # rest) counts =
     updateCounts_refl rest
       (if v \<noteq> 0 then counts(name \<mapsto> index_map counts name + v) else counts)"
| "updateCounts_refl ((name, KindStruct obj) # rest) counts =
     updateCounts_refl rest (updateCounts_refl obj counts)"
| "updateCounts_refl ((name, KindOther) # rest) counts = updateCounts_refl rest counts"
  by pat_completeness auto
termination
  by (relation "measure (\<lambda>(obj, counts). size_list (size_prod (\<lambda>name. 0) size) obj)") auto

text \<open>\<open>printWorkspaceMetadataTable\<close>, lines 171 to 189.\<close>

definition printWorkspaceMetadataTable_refl :: "Metadata_refl WorkspaceMetadata list \<Rightarrow> printed" where
  "printWorkspaceMetadataTable_refl workspaceMetadataList =
     Table [''Workspace'', ''Plugins'', ''Targets'', ''Services'', ''Routes'', ''Upstreams'']
       (map (\<lambda>workspaceMetadata.
               (let meta = Meta workspaceMetadata
                in [WorkspaceName workspaceMetadata,
                    Itoa (Plugins (Counts_refl meta)),
                    Itoa (Targets (Counts_refl meta)),
                    Itoa (Services (Counts_refl meta)),
                    Itoa (Routes (Counts_refl meta)),
                    Itoa (Upstreams (Counts_refl meta))]))
            workspaceMetadataList)"

text \<open>\<open>printCountsTable\<close>, lines 191 to 207; \<open>ks\<close> is the order of the \<open>range\<close> loop.\<close>

definition printCountsTable_refl :: "string list \<Rightarrow> gomap \<Rightarrow> goint \<Rightarrow> printed" where
  "printCountsTable_refl ks counts workspaceCount =
     Table [''Meta Field'', ''Count'']
       (map (\<lambda>(field, cnt). [field, Itoa cnt]) (range_entries ks counts)
        @ [[''Workspaces'', Itoa workspaceCount]])"

text \<open>\<open>main\<close>, lines 73 to 90: the loop over the workspaces.\<close>

fun fetch_loop_refl ::
  "world \<Rightarrow> string \<Rightarrow> Header \<Rightarrow> Workspace list \<Rightarrow> Metadata_refl run \<Rightarrow> Metadata_refl run" where
  "fetch_loop_refl w urlPtr headers [] r = r"
| "fetch_loop_refl w urlPtr headers (workspace # workspaces) r =
     (let metaURL = urlPtr @ ''/workspaces/'' @ Name workspace @ ''/meta'';
          r = r\<lparr>sends := sends r @ (case metadataRequest_refl w metaURL headers of
                                      Inl err \<Rightarrow> [] | Inr req \<Rightarrow> [req])\<rparr>
      in case getMetadata_refl w metaURL headers of
           Inl err \<Rightarrow>
             fetch_loop_refl w urlPtr headers workspaces
               (r\<lparr>out := out r @ [Line (''Error getting metadata for workspace '' @ Name workspace
                                          @ '': '' @ message err)]\<rparr>)
         | Inr meta \<Rightarrow>
             fetch_loop_refl w urlPtr headers workspaces
               (r\<lparr>v_counts := updateCounts_refl (ValueOf_Metadata meta) (v_counts r),
                  v_workspaceMetadataList := v_workspaceMetadataList r
                     @ [\<lparr>WorkspaceName = Name workspace, Meta = meta\<rparr>]\<rparr>))"

text \<open>\<open>main\<close>, lines 42 to 99.\<close>

definition main_refl :: "flags \<Rightarrow> world \<Rightarrow> Metadata_refl run" where
  "main_refl fl w =
     (let urlPtr = urlPtr_fallback w (flag_kong_addr fl);
          headers = getHeaders w (flag_headers fl);
          workspacesURL = urlPtr @ ''/workspaces'';
          r = \<lparr>gets = [workspacesURL], sends = [], v_counts = Map.empty,
               v_workspaceMetadataList = [], out = []\<rparr>
      in case getWorkspaces w workspacesURL of
           Inl err \<Rightarrow> r\<lparr>out := [Line (''Error getting workspaces: '' @ message err)]\<rparr>
         | Inr workspaces \<Rightarrow>
             (let r = fetch_loop_refl w urlPtr headers workspaces r
              in r\<lparr>out := out r @ [Line ''Individual Workspace Metadata:'',
                                   printWorkspaceMetadataTable_refl (v_workspaceMetadataList r),
                                   Line ''Total Entity Counts:'',
                                   printCountsTable_refl (rangeOrder w (v_counts r)) (v_counts r)
                                     (of_nat (length workspaces))]\<rparr>))"

section \<open>Notions used to state the properties\<close>

subsection \<open>Closed forms\<close>

text \<open>The body of the loop of \<open>updateCounts\<close> (map version), as a function of the entry visited.\<close>

definition step_map :: "string \<times> goint \<Rightarrow> gomap \<Rightarrow> gomap" where
  "step_map = (\<lambda>(key, val) counts.
             case counts key of
               Some cnt \<Rightarrow> counts(key \<mapsto> cnt + val)
             | None \<Rightarrow> counts(key \<mapsto> val))"

text \<open>
  The merge in closed form: every key of \<open>m\<close> gets its value added to the value that
  \<open>c\<close> has for it (zero when absent); the other keys of \<open>c\<close> are kept.
\<close>

definition merged :: "gomap \<Rightarrow> gomap \<Rightarrow> gomap" where
  "merged m c = (\<lambda>k. case m k of None \<Rightarrow> c k | Some v \<Rightarrow> Some (index_map c k + v))"

text \<open>
  The integer fields that \<open>updateCounts\<close> (reflective version) reaches in a struct, nested
  structs included, in the order in which it visits them, and what it does with each.
\<close>

function int_fields :: "(string \<times> reflect_Value) list \<Rightarrow> (string \<times> goint) list" where
  "int_fields [] = []"
| "int_fields ((name, KindInt v) # rest) = (name, v) # int_fields rest"
| "int_fields ((name, KindStruct obj) # rest) = int_fields obj @ int_fields rest"
| "int_fields ((name, KindOther) # rest) = int_fields rest"
  by pat_completeness auto
termination
  by (relation "measure (size_list (size_prod (\<lambda>name. 0) size))") auto

definition add_field :: "string \<times> goint \<Rightarrow> gomap \<Rightarrow> gomap" where
  "add_field = (\<lambda>(name, v) counts.
     if v \<noteq> 0 then counts(name \<mapsto> index_map counts name + v) else counts)"

text \<open>The URL of the metadata of a workspace, as the loop of \<open>main\<close> builds it.\<close>

definition metaURL :: "string \<Rightarrow> string \<Rightarrow> string" where
  "metaURL urlPtr name = urlPtr @ ''/workspaces/'' @ name @ ''/meta''"

text \<open>
  For a metadata fetch \<open>get\<close> (by workspace name): the entries stored for the workspaces
  whose fetch succeeds, the lines printed for those whose fetch fails, and (for the request
  builder \<open>mk\<close>) the requests handed to \<open>client.Do\<close>, each in the order of the list.
\<close>

definition fetched :: "(string \<Rightarrow> error + 'm) \<Rightarrow> Workspace list \<Rightarrow> 'm WorkspaceMetadata list" where
  "fetched get workspaces =
     concat (map (\<lambda>workspace. case get (Name workspace) of
                    Inl err \<Rightarrow> []
                  | Inr meta \<Rightarrow> [\<lparr>WorkspaceName = Name workspace, Meta = meta\<rparr>]) workspaces)"

definition failures :: "(string \<Rightarrow> error + 'm) \<Rightarrow> Workspace list \<Rightarrow> printed list" where
  "failures get workspaces =
     concat (map (\<lambda>workspace. case get (Name workspace) of
                    Inl err \<Rightarrow> [Line (''Error getting metadata for workspace '' @ Name workspace
                                        @ '': '' @ message err)]
                  | Inr meta \<Rightarrow> []) workspaces)"

definition requests :: "(string \<Rightarrow> error + Request) \<Rightarrow> Workspace list \<Rightarrow> Request list" where
  "requests mk workspaces =
     concat (map (\<lambda>workspace. case mk (Name workspace) of Inl err \<Rightarrow> [] | Inr req \<Rightarrow> [req])
               workspaces)"

text \<open>The aggregate: the stored metadata merged into \<open>counts\<close>, one after the other.\<close>

definition aggregate_map :: "world \<Rightarrow> Metadata_map WorkspaceMetadata list \<Rightarrow> gomap \<Rightarrow> gomap" where
  "aggregate_map w ms counts =
     fold (\<lambda>wm. updateCounts_map (rangeOrder w (Counts_map (Meta wm))) (Counts_map (Meta wm))) ms counts"

definition aggregate_refl :: "Metadata_refl WorkspaceMetadata list \<Rightarrow> gomap \<Rightarrow> gomap" where
  "aggregate_refl ms counts = fold (\<lambda>wm. updateCounts_refl (ValueOf_Metadata (Meta wm))) ms counts"

text \<open>What \<open>getMetadata\<close> returns in the loop of \<open>main\<close> for the workspace of a given name.\<close>

definition metadata_of_refl :: "flags \<Rightarrow> world \<Rightarrow> string \<Rightarrow> error + Metadata_refl" where
  "metadata_of_refl fl w name =
     getMetadata_refl w (metaURL (urlPtr_fallback w (flag_kong_addr fl)) name)
       (getHeaders w (flag_headers fl))"

definition metadata_of_map :: "flags \<Rightarrow> world \<Rightarrow> string \<Rightarrow> error + Metadata_map" where
  "metadata_of_map fl w name =
     getMetadata_map w (metaURL (urlPtr_fallback w (flag_kong_addr fl)) name) (flag_headers fl)"

text \<open>The numbers that the \<open>Count\<close> column of rendered rows holds.\<close>

definition count_column :: "string list list \<Rightarrow> int option list" where
  "count_column table_rows = map (\<lambda>row. parse_decimal (row ! 1)) table_rows"

text \<open>
  The header map that a value of \<open>--headers\<close> stands for: with exactly one colon, the text
  before it as the key and the text after it as the value, both trimmed, the key in its
  canonical form; no header otherwise.
\<close>

definition header_of_flag :: "string \<Rightarrow> Header" where
  "header_of_flag headersFlag =
     (if count_list headersFlag (CHR '':'') = 1 then
        [CanonicalMIMEHeaderKey (TrimSpace (takeWhile (\<lambda>c. c \<noteq> CHR '':'') headersFlag))
           \<mapsto> [TrimSpace (tl (dropWhile (\<lambda>c. c \<noteq> CHR '':'') headersFlag))]]
      else Map.empty)"

subsection \<open>Example inputs\<close>

text \<open>
  The count maps \<open>{"plugins":2}\<close>, \<open>{"plugins":3,"routes":1}\<close> and \<open>{"targets":7}\<close>,
  and two fixed-shape metadata values with the same counts as the first two.
\<close>

definition counts_a :: gomap where "counts_a = [''plugins'' \<mapsto> 2]"

definition counts_b :: gomap where "counts_b = [''plugins'' \<mapsto> 3, ''routes'' \<mapsto> 1]"

definition counts_c :: gomap where "counts_c = [''targets'' \<mapsto> 7]"

definition meta_1 :: Metadata_refl where
  "meta_1 = \<lparr>Counts_refl = \<lparr>Plugins = 2, Targets = 0, Services = 0, Routes = 0, Upstreams = 0\<rparr>\<rparr>"

definition meta_2 :: Metadata_refl where
  "meta_2 = \<lparr>Counts_refl = \<lparr>Plugins = 3, Targets = 0, Services = 0, Routes = 1, Upstreams = 0\<rparr>\<rparr>"

text \<open>
  A server at the default address with the workspaces \<open>a\<close> and \<open>b\<close>, whose metadata are
  the example counts; the same with the connection for \<open>b\<close> refused, with the server
  down, with a workspace list that does not decode, and with the two environment variables
  set. The bodies are stand-ins for the JSON text.
\<close>

definition world_ab :: world where
  "world_ab =
     \<lparr>Getenv = (\<lambda>name. []),
      http_Get = (\<lambda>url. if url = ''http://localhost:8001/workspaces''
                          then Inr (Response (Inr ''list of a and b''))
                          else Inl (Error ''connection refused'')),
      url_Parse = (\<lambda>url. None),
      client_Do = (\<lambda>req. if URL req = ''http://localhost:8001/workspaces/a/meta''
                           then Inr (Response (Inr ''counts of a''))
                           else if URL req = ''http://localhost:8001/workspaces/b/meta''
                           then Inr (Response (Inr ''counts of b''))
                           else Inl (Error ''connection refused'')),
      Unmarshal_WorkspaceResponse =
        (\<lambda>body. if body = ''list of a and b''
                 then Inr \<lparr>Data = [\<lparr>Name = ''a'', ID = ''1''\<rparr>, \<lparr>Name = ''b'', ID = ''2''\<rparr>]\<rparr>
                 else Inl (Error ''unexpected end of JSON input'')),
      Unmarshal_Metadata_refl =
        (\<lambda>body. if body = ''counts of a'' then Inr meta_1
                 else if body = ''counts of b'' then Inr meta_2
                 else Inl (Error ''unexpected end of JSON input'')),
      Unmarshal_Metadata_map =
        (\<lambda>body. if body = ''counts of a'' then Inr \<lparr>Counts_map = counts_a\<rparr>
                 else if body = ''counts of b'' then Inr \<lparr>Counts_map = counts_b\<rparr>
                 else Inl (Error ''unexpected end of JSON input'')),
      rangeOrder = (\<lambda>m. filter (\<lambda>k. m k \<noteq> None)
                          [''plugins'', ''routes'', ''Plugins'', ''Routes''])\<rparr>"

definition world_b_refused :: world where
  "world_b_refused =
     world_ab\<lparr>client_Do := (\<lambda>req. if URL req = ''http://localhost:8001/workspaces/a/meta''
                                   then Inr (Response (Inr ''counts of a''))
                                   else Inl (Error ''connection refused''))\<rparr>"

definition world_down :: world where
  "world_down = world_ab\<lparr>http_Get := (\<lambda>url. Inl (Error ''connection refused''))\<rparr>"

definition world_garbled :: world where
  "world_garbled = world_ab\<lparr>Unmarshal_WorkspaceResponse :=
      (\<lambda>body. Inl (Error ''invalid character''))\<rparr>"

definition world_env :: world where
  "world_env = world_ab\<lparr>Getenv := (\<lambda>name. if name = ''KONG_ADMIN_ADDR'' then ''http://kong:8001''
                                         else if name = ''X_ADMIN_TOKEN'' then ''other'' else [])\<rparr>"

definition flags_all :: flags where
  "flags_all = \<lparr>flag_kong_addr = [], flag_headers = [], flag_meta = ''all''\<rparr>"

definition flags_token :: flags where
  "flags_token = \<lparr>flag_kong_addr = ''http://admin:8001'', flag_headers = ''x-admin-token:secret'',
                   flag_meta = ''all''\<rparr>"

text \<open>
  The world of the examples with \<open>X_ADMIN_TOKEN=other\<close>, and two command lines with a
  \<open>--headers\<close> flag.
\<close>

definition world_token :: world where
  "world_token = world_ab\<lparr>Getenv := (\<lambda>name. if name = ''X_ADMIN_TOKEN'' then ''other'' else [])\<rparr>"

definition flags_secret :: flags where
  "flags_secret = \<lparr>flag_kong_addr = [], flag_headers = ''x-admin-token:secret'', flag_meta = ''all''\<rparr>"

definition flags_spaced :: flags where
  "flags_spaced = \<lparr>flag_kong_addr = [], flag_headers = '' x-admin-token : secret '', flag_meta = ''all''\<rparr>"

section \<open>Properties\<close>

subsection \<open>Decimal rendering\<close>

lemma digits_nonempty: "digits n \<noteq> []"
  by (subst digits.simps) simp

lemma is_digit_digit_char: "d < 10 \<Longrightarrow> is_digit (digit_char d)"
  by (simp add: is_digit_def digit_char_def)

lemma digit_char_value: "d < 10 \<Longrightarrow> (of_char (digit_char d) :: nat) - 48 = d"
  by (simp add: digit_char_def)

lemma digits_all_digit: "list_all is_digit (digits n)"
proof (induction n rule: digits.induct)
  case (1 n)
  show ?case
  proof (cases "n < 10")
    case True
    then show ?thesis by (subst digits.simps) (simp add: is_digit_digit_char)
  next
    case False
    with 1 show ?thesis by (subst digits.simps) (simp add: is_digit_digit_char)
  qed
qed

lemma digits_value_digits: "digits_value (digits n) = n"
proof (induction n rule: digits.induct)
  case (1 n)
  show ?case
  proof (cases "n < 10")
    case True
    then show ?thesis
      by (subst digits.simps) (simp add: digits_value_def digit_char_value)
  next
    case False
    with 1 have "digits_value (digits (n div 10)) = n div 10" by simp
    with False show ?thesis
      by (subst digits.simps) (simp add: digits_value_def digit_char_value)
  qed
qed

lemma digits_no_minus: "hd (digits n) \<noteq> CHR ''-''"
proof -
  have "is_digit (hd (digits n))"
    using digits_all_digit [of n] digits_nonempty [of n]
    by (cases "digits n") simp_all
  then show ?thesis by (auto simp: is_digit_def)
qed

lemma parse_decimal_Itoa: "parse_decimal (Itoa i) = Some (sint i)"
proof (cases "sint i < 0")
  case True
  then show ?thesis
    by (simp add: Itoa_def parse_decimal_def digits_nonempty digits_all_digit digits_value_digits)
next
  case False
  obtain c cs where d: "digits (nat (sint i)) = c # cs"
    using digits_nonempty [of "nat (sint i)"] by (cases "digits (nat (sint i))") auto
  have "c \<noteq> CHR ''-''"
    using digits_no_minus [of "nat (sint i)"] d by simp
  moreover have "list_all is_digit (c # cs)"
    using digits_all_digit [of "nat (sint i)"] d by simp
  moreover have "digits_value (c # cs) = nat (sint i)"
    using digits_value_digits [of "nat (sint i)"] d by simp
  ultimately show ?thesis
    using False d by (simp add: Itoa_def parse_decimal_def)
qed

subsection \<open>The merge of the map version\<close>

lemma step_map_apply:
  "step_map (key, val) counts = counts(key \<mapsto> index_map counts key + val)"
  by (simp add: step_map_def index_map_def split: option.splits)

lemma updateCounts_map_fold:
  "updateCounts_map ks m c = fold step_map (range_entries ks m) c"
  by (simp add: updateCounts_map_def step_map_def)

lemma fold_step_map_distinct:
  "distinct ks \<Longrightarrow>
   fold step_map (map (\<lambda>key. (key, f key)) ks) c
     = (\<lambda>k. if k \<in> set ks then Some (index_map c k + f k) else c k)"
proof (induction ks arbitrary: c)
  case Nil
  then show ?case by simp
next
  case (Cons a ks)
  then show ?case
    by (auto simp: step_map_apply index_map_def fun_eq_iff)
qed

lemma updateCounts_map_merged:
  assumes "range_order ks m"
  shows "updateCounts_map ks m c = merged m c"
proof -
  from assms have d: "distinct ks" and s: "set ks = dom m" by (simp_all add: range_order_def)
  show ?thesis
    unfolding updateCounts_map_fold range_entries_def fold_step_map_distinct [OF d] merged_def s
    by (auto simp: fun_eq_iff index_map_def split: option.splits)
qed

lemma merged_commute: "merged a (merged b c) = merged b (merged a c)"
  by (auto simp: merged_def fun_eq_iff index_map_def ac_simps split: option.splits)

lemma merged_comm: "merged a b = merged b a"
  by (auto simp: merged_def fun_eq_iff index_map_def ac_simps split: option.splits)

lemma merged_assoc: "merged (merged a b) c = merged a (merged b c)"
  by (auto simp: merged_def fun_eq_iff index_map_def ac_simps split: option.splits)

lemma fold_updateCounts_map_merged:
  "\<forall>(ks, m) \<in> set xs. range_order ks m \<Longrightarrow>
   fold (\<lambda>(ks, m). updateCounts_map ks m) xs c = fold merged (map snd xs) c"
  by (induction xs arbitrary: c) (auto simp: updateCounts_map_merged)

lemma fold_merged_perm:
  "mset ms = mset ms' \<Longrightarrow> fold merged ms c = fold merged ms' c"
  by (rule fun_cong [OF fold_multiset_equiv]) (auto simp: fun_eq_iff merged_commute)

subsection \<open>The merge of the reflective version\<close>

lemma updateCounts_refl_fold:
  "updateCounts_refl obj counts = fold add_field (int_fields obj) counts"
  by (induction obj counts rule: updateCounts_refl.induct) (simp_all add: add_field_def)

lemma add_field_commute: "add_field a (add_field b c) = add_field b (add_field a c)"
  by (cases a; cases b) (auto simp: add_field_def fun_eq_iff index_map_def ac_simps)

lemma fold_add_field_perm:
  "mset xs = mset ys \<Longrightarrow> fold add_field xs c = fold add_field ys c"
  by (rule fun_cong [OF fold_multiset_equiv]) (auto simp: fun_eq_iff add_field_commute)

lemma fold_updateCounts_refl_concat:
  "fold (\<lambda>meta. updateCounts_refl (ValueOf_Metadata meta)) ms c
     = fold add_field (concat (map (\<lambda>meta. int_fields (ValueOf_Metadata meta)) ms)) c"
  by (induction ms arbitrary: c) (simp_all add: updateCounts_refl_fold)

lemma fold_updateCounts_refl_perm:
  assumes "mset ms = mset ms'"
  shows "fold (\<lambda>meta. updateCounts_refl (ValueOf_Metadata meta)) ms c
       = fold (\<lambda>meta. updateCounts_refl (ValueOf_Metadata meta)) ms' c"
proof -
  let ?f = "\<lambda>meta. int_fields (ValueOf_Metadata meta)"
  have "mset (concat (map ?f xs)) = sum_mset (image_mset (\<lambda>meta. mset (?f meta)) (mset xs))" for xs
    by (induction xs) simp_all
  then have "mset (concat (map ?f ms)) = mset (concat (map ?f ms'))"
    using assms by simp
  then show ?thesis
    unfolding fold_updateCounts_refl_concat by (rule fold_add_field_perm)
qed

lemma add_field_dom:
  "add_field (name, v) c k \<noteq> None \<longleftrightarrow> c k \<noteq> None \<or> (name = k \<and> v \<noteq> 0)"
  by (simp add: add_field_def)

lemma fold_add_field_dom:
  "(fold add_field xs c) k \<noteq> None \<longleftrightarrow> c k \<noteq> None \<or> (\<exists>v. (k, v) \<in> set xs \<and> v \<noteq> 0)"
proof (induction xs arbitrary: c)
  case Nil
  then show ?case by simp
next
  case (Cons x xs)
  obtain name v where x: "x = (name, v)" by (cases x)
  show ?case
    unfolding x fold_simps Cons.IH add_field_dom by auto
qed

lemma int_fields_Metadata:
  "int_fields (ValueOf_Metadata meta) =
     [(''Plugins'', Plugins (Counts_refl meta)), (''Targets'', Targets (Counts_refl meta)),
      (''Services'', Services (Counts_refl meta)), (''Routes'', Routes (Counts_refl meta)),
      (''Upstreams'', Upstreams (Counts_refl meta))]"
  by (simp add: ValueOf_Metadata_def)

subsection \<open>The example count maps\<close>

lemma range_order_counts_a: "range_order [''plugins''] counts_a"
  by (simp add: range_order_def counts_a_def)

lemma range_order_counts_b: "range_order [''routes'', ''plugins''] counts_b"
  by (auto simp: range_order_def counts_b_def)

lemma range_order_counts_b': "range_order [''plugins'', ''routes''] counts_b"
  by (auto simp: range_order_def counts_b_def)

lemma range_order_counts_c: "range_order [''targets''] counts_c"
  by (simp add: range_order_def counts_c_def)

lemma range_order_counts_bc:
  "range_order [''targets'', ''routes'', ''plugins''] (updateCounts_map [''targets''] counts_c counts_b)"
  unfolding updateCounts_map_merged [OF range_order_counts_c] merged_def
  by (auto simp: range_order_def counts_b_def counts_c_def dom_def split: option.splits if_splits)

subsection \<open>What one merge does\<close>

text \<open>
  C4. \<open>merge(into, from)\<close> is \<open>updateCounts(from, into)\<close> of the map version. For every
  order in which the runtime may visit \<open>from\<close>: a key present in \<open>from\<close> ends with the
  value of \<open>from\<close> plus the previous value of \<open>into\<close> (zero when the key was absent
  from \<open>into\<close>), and every other key keeps what \<open>into\<close> had for it (so a key absent from
  both stays absent). The sum is that of Go's \<open>int\<close>.
\<close>

theorem updateCounts_map_adds:
  assumes "range_order ks metaCounts"
  shows "updateCounts_map ks metaCounts counts k =
           (case metaCounts k of
              Some v \<Rightarrow> Some (v + index_map counts k)
            | None \<Rightarrow> counts k)"
  using updateCounts_map_merged [OF assms, of counts]
  by (simp add: merged_def add.commute split: option.splits)

theorem updateCounts_map_adds_witness:
  "range_order [''routes'', ''plugins''] counts_b
   \<and> updateCounts_map [''routes'', ''plugins''] counts_b counts_a ''plugins'' = Some 5
   \<and> updateCounts_map [''routes'', ''plugins''] counts_b counts_a ''routes'' = Some 1
   \<and> updateCounts_map [''routes'', ''plugins''] counts_b [''targets'' \<mapsto> 7] ''targets'' = Some 7
   \<and> updateCounts_map [''routes'', ''plugins''] counts_b counts_a ''targets'' = None"
proof -
  note h = range_order_counts_b
  have "updateCounts_map [''routes'', ''plugins''] counts_b counts_a ''plugins'' = Some 5"
    unfolding updateCounts_map_adds [OF h] by (simp add: counts_a_def counts_b_def index_map_def)
  moreover have "updateCounts_map [''routes'', ''plugins''] counts_b counts_a ''routes'' = Some 1"
    unfolding updateCounts_map_adds [OF h] by (simp add: counts_a_def counts_b_def index_map_def)
  moreover have "updateCounts_map [''routes'', ''plugins''] counts_b [''targets'' \<mapsto> 7] ''targets'' = Some 7"
    unfolding updateCounts_map_adds [OF h] by (simp add: counts_a_def counts_b_def index_map_def)
  moreover have "updateCounts_map [''routes'', ''plugins''] counts_b counts_a ''targets'' = None"
    unfolding updateCounts_map_adds [OF h] by (simp add: counts_a_def counts_b_def index_map_def)
  ultimately show ?thesis using h by simp
qed

subsection \<open>The order of the merges\<close>

text \<open>
  C3. Folding the count mappings of the workspaces into an aggregate gives the same map
  for every processing order of the workspaces (and, in the map version, for every order in
  which the runtime visits the keys of each mapping): the lists \<open>xs\<close> and \<open>ys\<close> hold the
  same multiset of mappings, each with a visiting order, and \<open>ms\<close> and \<open>ms'\<close> the same
  multiset of fixed-shape metadata values. The starting aggregate \<open>counts\<close> is arbitrary, the
  empty map included. As a binary operation on maps the merge of the map version is
  commutative and associative.
\<close>

theorem merge_order_independent:
  "(list_all (\<lambda>(ks, m). range_order ks m) xs \<and> list_all (\<lambda>(ks, m). range_order ks m) ys
      \<and> mset (map snd xs) = mset (map snd ys)
    \<longrightarrow> fold (\<lambda>(ks, m). updateCounts_map ks m) xs counts
          = fold (\<lambda>(ks, m). updateCounts_map ks m) ys counts)
   \<and> (mset ms = mset ms'
    \<longrightarrow> fold (\<lambda>meta. updateCounts_refl (ValueOf_Metadata meta)) ms counts
          = fold (\<lambda>meta. updateCounts_refl (ValueOf_Metadata meta)) ms' counts)
   \<and> (range_order ka a \<and> range_order kb b
    \<longrightarrow> updateCounts_map kb b a = updateCounts_map ka a b)
   \<and> (range_order kb b \<and> range_order kc c \<and> range_order kbc (updateCounts_map kc c b)
    \<longrightarrow> updateCounts_map kc c (updateCounts_map kb b a)
          = updateCounts_map kbc (updateCounts_map kc c b) a)"
proof (intro conjI impI)
  assume h: "list_all (\<lambda>(ks, m). range_order ks m) xs \<and> list_all (\<lambda>(ks, m). range_order ks m) ys
      \<and> mset (map snd xs) = mset (map snd ys)"
  then have x: "\<forall>(ks, m) \<in> set xs. range_order ks m" and y: "\<forall>(ks, m) \<in> set ys. range_order ks m"
    by (simp_all add: list_all_iff)
  from h have p: "mset (map snd xs) = mset (map snd ys)" by simp
  show "fold (\<lambda>(ks, m). updateCounts_map ks m) xs counts
           = fold (\<lambda>(ks, m). updateCounts_map ks m) ys counts"
    unfolding fold_updateCounts_map_merged [OF x] fold_updateCounts_map_merged [OF y]
    by (rule fold_merged_perm) (rule p)
next
  assume "mset ms = mset ms'"
  then show "fold (\<lambda>meta. updateCounts_refl (ValueOf_Metadata meta)) ms counts
           = fold (\<lambda>meta. updateCounts_refl (ValueOf_Metadata meta)) ms' counts"
    by (rule fold_updateCounts_refl_perm)
next
  assume "range_order ka a \<and> range_order kb b"
  then show "updateCounts_map kb b a = updateCounts_map ka a b"
    by (simp add: updateCounts_map_merged merged_comm)
next
  assume h: "range_order kb b \<and> range_order kc c \<and> range_order kbc (updateCounts_map kc c b)"
  then have b: "range_order kb b" and c: "range_order kc c"
    by simp_all
  from h have bc: "range_order kbc (merged c b)"
    unfolding updateCounts_map_merged [OF c] by simp
  show "updateCounts_map kc c (updateCounts_map kb b a)
           = updateCounts_map kbc (updateCounts_map kc c b) a"
    unfolding updateCounts_map_merged [OF b] updateCounts_map_merged [OF c]
      updateCounts_map_merged [OF bc]
    by (rule merged_assoc [symmetric])
qed

theorem merge_order_independent_witness:
  "list_all (\<lambda>(ks, m). range_order ks m) [([''plugins''], counts_a), ([''routes'', ''plugins''], counts_b)]
   \<and> list_all (\<lambda>(ks, m). range_order ks m) [([''plugins'', ''routes''], counts_b), ([''plugins''], counts_a)]
   \<and> mset (map snd [([''plugins''], counts_a), ([''routes'', ''plugins''], counts_b)])
       = mset (map snd [([''plugins'', ''routes''], counts_b), ([''plugins''], counts_a)])
   \<and> fold (\<lambda>(ks, m). updateCounts_map ks m)
        [([''plugins''], counts_a), ([''routes'', ''plugins''], counts_b)] Map.empty
       = fold (\<lambda>(ks, m). updateCounts_map ks m)
           [([''plugins'', ''routes''], counts_b), ([''plugins''], counts_a)] Map.empty
   \<and> mset [meta_1, meta_2] = mset [meta_2, meta_1]
   \<and> fold (\<lambda>meta. updateCounts_refl (ValueOf_Metadata meta)) [meta_1, meta_2] Map.empty
       = fold (\<lambda>meta. updateCounts_refl (ValueOf_Metadata meta)) [meta_2, meta_1] Map.empty
   \<and> range_order [''plugins''] counts_a \<and> range_order [''routes'', ''plugins''] counts_b
   \<and> updateCounts_map [''routes'', ''plugins''] counts_b counts_a
       = updateCounts_map [''plugins''] counts_a counts_b
   \<and> range_order [''targets''] counts_c
   \<and> range_order [''targets'', ''routes'', ''plugins''] (updateCounts_map [''targets''] counts_c counts_b)
   \<and> updateCounts_map [''targets''] counts_c (updateCounts_map [''routes'', ''plugins''] counts_b counts_a)
       = updateCounts_map [''targets'', ''routes'', ''plugins'']
           (updateCounts_map [''targets''] counts_c counts_b) counts_a"
proof -
  have h1: "list_all (\<lambda>(ks, m). range_order ks m)
              [([''plugins''], counts_a), ([''routes'', ''plugins''], counts_b)]"
    by (simp add: range_order_counts_a range_order_counts_b)
  have h2: "list_all (\<lambda>(ks, m). range_order ks m)
              [([''plugins'', ''routes''], counts_b), ([''plugins''], counts_a)]"
    by (simp add: range_order_counts_a range_order_counts_b')
  have h3: "mset (map snd [([''plugins''], counts_a), ([''routes'', ''plugins''], counts_b)])
              = mset (map snd [([''plugins'', ''routes''], counts_b), ([''plugins''], counts_a)])"
    by (simp add: add_mset_commute)
  have h4: "mset [meta_1, meta_2] = mset [meta_2, meta_1]"
    by (simp add: add_mset_commute)
  note t = merge_order_independent
      [of "[([''plugins''], counts_a), ([''routes'', ''plugins''], counts_b)]"
          "[([''plugins'', ''routes''], counts_b), ([''plugins''], counts_a)]"
          Map.empty "[meta_1, meta_2]" "[meta_2, meta_1]"
          "[''plugins'']" counts_a "[''routes'', ''plugins'']" counts_b
          "[''targets'']" counts_c "[''targets'', ''routes'', ''plugins'']"]
  note a = range_order_counts_a and b = range_order_counts_b and c = range_order_counts_c
    and bc = range_order_counts_bc
  have 1: "fold (\<lambda>(ks, m). updateCounts_map ks m)
        [([''plugins''], counts_a), ([''routes'', ''plugins''], counts_b)] Map.empty
       = fold (\<lambda>(ks, m). updateCounts_map ks m)
           [([''plugins'', ''routes''], counts_b), ([''plugins''], counts_a)] Map.empty"
    using t h1 h2 h3 by blast
  have 2: "fold (\<lambda>meta. updateCounts_refl (ValueOf_Metadata meta)) [meta_1, meta_2] Map.empty
       = fold (\<lambda>meta. updateCounts_refl (ValueOf_Metadata meta)) [meta_2, meta_1] Map.empty"
    using t h4 by blast
  have 3: "updateCounts_map [''routes'', ''plugins''] counts_b counts_a
       = updateCounts_map [''plugins''] counts_a counts_b"
    using t a b by blast
  have 4: "updateCounts_map [''targets''] counts_c (updateCounts_map [''routes'', ''plugins''] counts_b counts_a)
       = updateCounts_map [''targets'', ''routes'', ''plugins'']
           (updateCounts_map [''targets''] counts_c counts_b) counts_a"
    using t b c bc by blast
  show ?thesis
    by (intro conjI h1 h2 h3 h4 1 2 3 4 a b c bc)
qed

subsection \<open>The run of \<open>main\<close> in closed form\<close>

lemma fetch_loop_map_closed:
  "fetch_loop_map w urlPtr headers workspaces r =
     r\<lparr>sends := sends r @ requests (\<lambda>name. metadataRequest_map w (metaURL urlPtr name) headers) workspaces,
       v_counts := aggregate_map w
          (fetched (\<lambda>name. getMetadata_map w (metaURL urlPtr name) headers) workspaces) (v_counts r),
       v_workspaceMetadataList := v_workspaceMetadataList r
          @ fetched (\<lambda>name. getMetadata_map w (metaURL urlPtr name) headers) workspaces,
       out := out r @ failures (\<lambda>name. getMetadata_map w (metaURL urlPtr name) headers) workspaces\<rparr>"
proof (induction workspaces arbitrary: r)
  case Nil
  then show ?case by (simp add: requests_def fetched_def failures_def aggregate_map_def)
next
  case (Cons workspace workspaces)
  show ?case
    by (cases "getMetadata_map w (metaURL urlPtr (Name workspace)) headers")
       (simp_all add: Cons.IH Let_def requests_def fetched_def failures_def aggregate_map_def
          metaURL_def)
qed

lemma fetch_loop_refl_closed:
  "fetch_loop_refl w urlPtr headers workspaces r =
     r\<lparr>sends := sends r @ requests (\<lambda>name. metadataRequest_refl w (metaURL urlPtr name) headers) workspaces,
       v_counts := aggregate_refl
          (fetched (\<lambda>name. getMetadata_refl w (metaURL urlPtr name) headers) workspaces) (v_counts r),
       v_workspaceMetadataList := v_workspaceMetadataList r
          @ fetched (\<lambda>name. getMetadata_refl w (metaURL urlPtr name) headers) workspaces,
       out := out r @ failures (\<lambda>name. getMetadata_refl w (metaURL urlPtr name) headers) workspaces\<rparr>"
proof (induction workspaces arbitrary: r)
  case Nil
  then show ?case by (simp add: requests_def fetched_def failures_def aggregate_refl_def)
next
  case (Cons workspace workspaces)
  show ?case
    by (cases "getMetadata_refl w (metaURL urlPtr (Name workspace)) headers")
       (simp_all add: Cons.IH Let_def requests_def fetched_def failures_def aggregate_refl_def
          metaURL_def)
qed

lemma main_map_fatal:
  assumes "getWorkspaces w (urlPtr_fallback w (flag_kong_addr fl) @ ''/workspaces'') = Inl err"
  shows "main_map fl w =
           \<lparr>gets = [urlPtr_fallback w (flag_kong_addr fl) @ ''/workspaces''], sends = [],
            v_counts = Map.empty, v_workspaceMetadataList = [],
            out = [Line (''Error getting workspaces: '' @ message err)]\<rparr>"
  using assms by (simp add: main_map_def Let_def)

lemma main_refl_fatal:
  assumes "getWorkspaces w (urlPtr_fallback w (flag_kong_addr fl) @ ''/workspaces'') = Inl err"
  shows "main_refl fl w =
           \<lparr>gets = [urlPtr_fallback w (flag_kong_addr fl) @ ''/workspaces''], sends = [],
            v_counts = Map.empty, v_workspaceMetadataList = [],
            out = [Line (''Error getting workspaces: '' @ message err)]\<rparr>"
  using assms by (simp add: main_refl_def Let_def)

lemma main_map_closed:
  assumes "getWorkspaces w (urlPtr_fallback w (flag_kong_addr fl) @ ''/workspaces'') = Inr workspaces"
  shows "main_map fl w =
     (let urlPtr = urlPtr_fallback w (flag_kong_addr fl);
          get = (\<lambda>name. getMetadata_map w (metaURL urlPtr name) (flag_headers fl));
          counts = aggregate_map w (fetched get workspaces) Map.empty
      in \<lparr>gets = [urlPtr @ ''/workspaces''],
          sends = requests (\<lambda>name. metadataRequest_map w (metaURL urlPtr name) (flag_headers fl)) workspaces,
          v_counts = counts,
          v_workspaceMetadataList = fetched get workspaces,
          out = failures get workspaces
            @ (if flag_meta fl = ''workspace'' \<or> flag_meta fl = ''all'' then
                 [Line ''Individual Workspace Metadata:'',
                  printWorkspaceMetadataTable_map (fetched get workspaces)]
               else [])
            @ (if flag_meta fl = ''counts'' \<or> flag_meta fl = ''all'' then
                 [Line ''Total Meta Field Counts:'',
                  printCountsTable_map (rangeOrder w counts) counts
                    (of_nat (length (fetched get workspaces)))]
               else [])\<rparr>)"
  using assms by (simp add: main_map_def Let_def fetch_loop_map_closed)

lemma main_refl_closed:
  assumes "getWorkspaces w (urlPtr_fallback w (flag_kong_addr fl) @ ''/workspaces'') = Inr workspaces"
  shows "main_refl fl w =
     (let urlPtr = urlPtr_fallback w (flag_kong_addr fl);
          headers = getHeaders w (flag_headers fl);
          get = (\<lambda>name. getMetadata_refl w (metaURL urlPtr name) headers);
          counts = aggregate_refl (fetched get workspaces) Map.empty
      in \<lparr>gets = [urlPtr @ ''/workspaces''],
          sends = requests (\<lambda>name. metadataRequest_refl w (metaURL urlPtr name) headers) workspaces,
          v_counts = counts,
          v_workspaceMetadataList = fetched get workspaces,
          out = failures get workspaces
            @ [Line ''Individual Workspace Metadata:'',
               printWorkspaceMetadataTable_refl (fetched get workspaces),
               Line ''Total Entity Counts:'',
               printCountsTable_refl (rangeOrder w counts) counts (of_nat (length workspaces))]\<rparr>)"
  using assms by (simp add: main_refl_def Let_def fetch_loop_refl_closed)

subsection \<open>Failure of the workspace list\<close>

lemma getWorkspaces_fails:
  assumes "http_Get w url = Inl err
         \<or> (\<exists>resp. http_Get w url = Inr resp
               \<and> (ReadAll resp = Inl err
                  \<or> (\<exists>body. ReadAll resp = Inr body \<and> Unmarshal_WorkspaceResponse w body = Inl err)))"
  shows "getWorkspaces w url = Inl err"
  using assms by (auto simp: getWorkspaces_def)

text \<open>
  C9. When the fetch of the workspace list fails, or reading its body fails, or its JSON
  does not decode, \<open>main\<close> (both versions) prints the line
  \<open>Error getting workspaces: \<close> followed by the error and returns: that line is all of its
  output (no table, no per-workspace line), and no metadata request is sent.
\<close>

theorem workspace_list_failure_is_fatal:
  assumes "http_Get w (urlPtr_fallback w (flag_kong_addr fl) @ ''/workspaces'') = Inl err
         \<or> (\<exists>resp. http_Get w (urlPtr_fallback w (flag_kong_addr fl) @ ''/workspaces'') = Inr resp
               \<and> (ReadAll resp = Inl err
                  \<or> (\<exists>body. ReadAll resp = Inr body \<and> Unmarshal_WorkspaceResponse w body = Inl err)))"
  shows "out (main_refl fl w) = [Line (''Error getting workspaces: '' @ message err)]
       \<and> out (main_map fl w) = [Line (''Error getting workspaces: '' @ message err)]
       \<and> sends (main_refl fl w) = [] \<and> sends (main_map fl w) = []"
proof -
  have "getWorkspaces w (urlPtr_fallback w (flag_kong_addr fl) @ ''/workspaces'') = Inl err"
    by (rule getWorkspaces_fails) (rule assms)
  then show ?thesis
    by (simp add: main_map_fatal main_refl_fatal)
qed

theorem workspace_list_failure_is_fatal_witness:
  "http_Get world_down (urlPtr_fallback world_down (flag_kong_addr flags_all) @ ''/workspaces'')
     = Inl (Error ''connection refused'')
   \<and> out (main_refl flags_all world_down) = [Line ''Error getting workspaces: connection refused'']
   \<and> out (main_map flags_all world_down) = [Line ''Error getting workspaces: connection refused'']
   \<and> sends (main_refl flags_all world_down) = []
   \<and> sends (main_map flags_all world_down) = []
   \<and> http_Get world_garbled (urlPtr_fallback world_garbled (flag_kong_addr flags_all) @ ''/workspaces'')
       = Inr (Response (Inr ''list of a and b''))
   \<and> Unmarshal_WorkspaceResponse world_garbled ''list of a and b'' = Inl (Error ''invalid character'')
   \<and> out (main_refl flags_all world_garbled) = [Line ''Error getting workspaces: invalid character'']
   \<and> out (main_map flags_all world_garbled) = [Line ''Error getting workspaces: invalid character'']"
proof -
  have h1: "http_Get world_down (urlPtr_fallback world_down (flag_kong_addr flags_all) @ ''/workspaces'')
              = Inl (Error ''connection refused'')"
    by (simp add: world_down_def world_ab_def)
  have h2: "http_Get world_garbled (urlPtr_fallback world_garbled (flag_kong_addr flags_all) @ ''/workspaces'')
              = Inr (Response (Inr ''list of a and b''))"
    by (simp add: world_garbled_def world_ab_def urlPtr_fallback_def flags_all_def)
  have h3: "Unmarshal_WorkspaceResponse world_garbled ''list of a and b'' = Inl (Error ''invalid character'')"
    by (simp add: world_garbled_def world_ab_def)
  note t1 = workspace_list_failure_is_fatal [of world_down flags_all "Error ''connection refused''",
      OF disjI1, OF h1]
  have "\<exists>resp. http_Get world_garbled
            (urlPtr_fallback world_garbled (flag_kong_addr flags_all) @ ''/workspaces'') = Inr resp
          \<and> (ReadAll resp = Inl (Error ''invalid character'')
             \<or> (\<exists>body. ReadAll resp = Inr body
                  \<and> Unmarshal_WorkspaceResponse world_garbled body = Inl (Error ''invalid character'')))"
    using h2 h3 by simp
  note t2 = workspace_list_failure_is_fatal [of world_garbled flags_all "Error ''invalid character''",
      OF disjI2, OF this]
  from t1 t2 h1 h2 h3 show ?thesis by simp
qed

subsection \<open>The admin address\<close>

lemma sends_URL_map:
  "list_all (\<lambda>req. \<exists>name. URL req = metaURL urlPtr name)
     (requests (\<lambda>name. metadataRequest_map w (metaURL urlPtr name) headers) workspaces)"
  by (induction workspaces)
     (auto simp: requests_def metadataRequest_map_def NewRequest_def Let_def split: option.splits)

lemma sends_URL_refl:
  "list_all (\<lambda>req. \<exists>name. URL req = metaURL urlPtr name)
     (requests (\<lambda>name. metadataRequest_refl w (metaURL urlPtr name) headers) workspaces)"
  by (induction workspaces)
     (auto simp: requests_def metadataRequest_refl_def NewRequest_def Let_def split: option.splits)

text \<open>
  C5. The admin base URL is the value of \<open>--kong-addr\<close> when that is not empty, otherwise
  the value of \<open>KONG_ADMIN_ADDR\<close> when that is not empty, otherwise
  \<open>http://localhost:8001\<close>; it is the prefix of the URL of the workspace list and of the
  URL of every metadata request, in both versions.
\<close>

theorem admin_address_precedence:
  "urlPtr_fallback w (flag_kong_addr fl)
     = (if flag_kong_addr fl \<noteq> [] then flag_kong_addr fl
        else if Getenv w ''KONG_ADMIN_ADDR'' \<noteq> [] then Getenv w ''KONG_ADMIN_ADDR''
        else ''http://localhost:8001'')
   \<and> gets (main_refl fl w) = [urlPtr_fallback w (flag_kong_addr fl) @ ''/workspaces'']
   \<and> gets (main_map fl w) = [urlPtr_fallback w (flag_kong_addr fl) @ ''/workspaces'']
   \<and> list_all (\<lambda>req. \<exists>name. URL req
           = urlPtr_fallback w (flag_kong_addr fl) @ ''/workspaces/'' @ name @ ''/meta'')
        (sends (main_refl fl w))
   \<and> list_all (\<lambda>req. \<exists>name. URL req
           = urlPtr_fallback w (flag_kong_addr fl) @ ''/workspaces/'' @ name @ ''/meta'')
        (sends (main_map fl w))"
proof (intro conjI)
  show "urlPtr_fallback w (flag_kong_addr fl)
     = (if flag_kong_addr fl \<noteq> [] then flag_kong_addr fl
        else if Getenv w ''KONG_ADMIN_ADDR'' \<noteq> [] then Getenv w ''KONG_ADMIN_ADDR''
        else ''http://localhost:8001'')"
    by (simp add: urlPtr_fallback_def Let_def)
  show "gets (main_refl fl w) = [urlPtr_fallback w (flag_kong_addr fl) @ ''/workspaces'']"
    by (cases "getWorkspaces w (urlPtr_fallback w (flag_kong_addr fl) @ ''/workspaces'')")
       (simp_all add: main_refl_fatal main_refl_closed Let_def)
  show "gets (main_map fl w) = [urlPtr_fallback w (flag_kong_addr fl) @ ''/workspaces'']"
    by (cases "getWorkspaces w (urlPtr_fallback w (flag_kong_addr fl) @ ''/workspaces'')")
       (simp_all add: main_map_fatal main_map_closed Let_def)
  show "list_all (\<lambda>req. \<exists>name. URL req
           = urlPtr_fallback w (flag_kong_addr fl) @ ''/workspaces/'' @ name @ ''/meta'')
        (sends (main_refl fl w))"
    using sends_URL_refl [of "urlPtr_fallback w (flag_kong_addr fl)" w]
    by (cases "getWorkspaces w (urlPtr_fallback w (flag_kong_addr fl) @ ''/workspaces'')")
       (simp_all add: main_refl_fatal main_refl_closed Let_def metaURL_def)
  show "list_all (\<lambda>req. \<exists>name. URL req
           = urlPtr_fallback w (flag_kong_addr fl) @ ''/workspaces/'' @ name @ ''/meta'')
        (sends (main_map fl w))"
    using sends_URL_map [of "urlPtr_fallback w (flag_kong_addr fl)" w]
    by (cases "getWorkspaces w (urlPtr_fallback w (flag_kong_addr fl) @ ''/workspaces'')")
       (simp_all add: main_map_fatal main_map_closed Let_def metaURL_def)
qed

theorem admin_address_precedence_witness:
  "urlPtr_fallback world_env (flag_kong_addr flags_token) = ''http://admin:8001''
   \<and> urlPtr_fallback world_env (flag_kong_addr flags_all) = ''http://kong:8001''
   \<and> urlPtr_fallback world_ab (flag_kong_addr flags_all) = ''http://localhost:8001''
   \<and> gets (main_refl flags_token world_env) = [''http://admin:8001/workspaces'']
   \<and> gets (main_map flags_all world_env) = [''http://kong:8001/workspaces'']
   \<and> gets (main_map flags_all world_ab) = [''http://localhost:8001/workspaces'']"
proof -
  note t1 = admin_address_precedence [of world_env flags_token]
  note t2 = admin_address_precedence [of world_env flags_all]
  note t3 = admin_address_precedence [of world_ab flags_all]
  have 1: "urlPtr_fallback world_env (flag_kong_addr flags_token) = ''http://admin:8001''"
    unfolding t1 [THEN conjunct1] by (simp add: flags_token_def)
  have 2: "urlPtr_fallback world_env (flag_kong_addr flags_all) = ''http://kong:8001''"
    unfolding t2 [THEN conjunct1] by (simp add: flags_all_def world_env_def)
  have 3: "urlPtr_fallback world_ab (flag_kong_addr flags_all) = ''http://localhost:8001''"
    unfolding t3 [THEN conjunct1] by (simp add: flags_all_def world_ab_def)
  from t1 t2 t3 show ?thesis unfolding 1 2 3 by simp
qed

subsection \<open>The aggregate of two workspaces\<close>

lemma Itoa_2: "Itoa 2 = ''2''" by code_simp

lemma merged_example:
  "merged counts_b (merged counts_a Map.empty) = [''plugins'' \<mapsto> 5, ''routes'' \<mapsto> 1]"
  by (auto simp: merged_def counts_a_def counts_b_def index_map_def fun_eq_iff)

text \<open>
  C1. Map version. When the workspace list is \<open>[a, b]\<close>, the metadata of \<open>a\<close> has the
  counts \<open>{"plugins":2}\<close> and that of \<open>b\<close> the counts \<open>{"plugins":3,"routes":1}\<close>, then
  (whatever the order in which the runtime visits the keys) the aggregate at the end of
  \<open>main\<close> is \<open>{"plugins":5,"routes":1}\<close>, and the totals table, which is printed last
  when \<open>--meta\<close> is \<open>counts\<close> or \<open>all\<close>, has the row \<open>Workspaces\<close>, \<open>2\<close>.
\<close>

theorem aggregate_of_two_workspaces:
  assumes "getWorkspaces w (urlPtr_fallback w (flag_kong_addr fl) @ ''/workspaces'') = Inr [a, b]"
      and "getMetadata_map w (metaURL (urlPtr_fallback w (flag_kong_addr fl)) (Name a)) (flag_headers fl)
             = Inr \<lparr>Counts_map = [''plugins'' \<mapsto> 2]\<rparr>"
      and "getMetadata_map w (metaURL (urlPtr_fallback w (flag_kong_addr fl)) (Name b)) (flag_headers fl)
             = Inr \<lparr>Counts_map = [''plugins'' \<mapsto> 3, ''routes'' \<mapsto> 1]\<rparr>"
      and "range_order (rangeOrder w [''plugins'' \<mapsto> 2]) [''plugins'' \<mapsto> 2]"
      and "range_order (rangeOrder w [''plugins'' \<mapsto> 3, ''routes'' \<mapsto> 1])
             [''plugins'' \<mapsto> 3, ''routes'' \<mapsto> 1]"
  shows "v_counts (main_map fl w) = [''plugins'' \<mapsto> 5, ''routes'' \<mapsto> 1]
       \<and> (flag_meta fl = ''counts'' \<or> flag_meta fl = ''all'' \<longrightarrow>
            (\<exists>fields. last (out (main_map fl w))
               = Table [''Meta Field'', ''Count''] ([''Workspaces'', ''2''] # fields)))"
proof -
  let ?get = "\<lambda>name. getMetadata_map w (metaURL (urlPtr_fallback w (flag_kong_addr fl)) name) (flag_headers fl)"
  have f: "fetched ?get [a, b]
             = [\<lparr>WorkspaceName = Name a, Meta = \<lparr>Counts_map = counts_a\<rparr>\<rparr>,
                \<lparr>WorkspaceName = Name b, Meta = \<lparr>Counts_map = counts_b\<rparr>\<rparr>]"
    using assms(2,3) by (simp add: fetched_def counts_a_def counts_b_def)
  have ra: "range_order (rangeOrder w counts_a) counts_a"
    using assms(4) by (simp add: counts_a_def)
  have rb: "range_order (rangeOrder w counts_b) counts_b"
    using assms(5) by (simp add: counts_b_def)
  have agg: "aggregate_map w (fetched ?get [a, b]) Map.empty = [''plugins'' \<mapsto> 5, ''routes'' \<mapsto> 1]"
    unfolding f aggregate_map_def
    by (simp add: updateCounts_map_merged [OF ra] updateCounts_map_merged [OF rb] merged_example)
  have c: "v_counts (main_map fl w) = [''plugins'' \<mapsto> 5, ''routes'' \<mapsto> 1]"
    unfolding main_map_closed [OF assms(1)] Let_def using agg by simp
  have "\<exists>fields. last (out (main_map fl w))
             = Table [''Meta Field'', ''Count''] ([''Workspaces'', ''2''] # fields)"
    if "flag_meta fl = ''counts'' \<or> flag_meta fl = ''all''"
    unfolding main_map_closed [OF assms(1)] Let_def using that
    by (auto simp: f printCountsTable_map_def Let_def Itoa_2)
  with c show ?thesis by simp
qed

lemma getWorkspaces_world_ab:
  "getWorkspaces world_ab (urlPtr_fallback world_ab (flag_kong_addr flags_all) @ ''/workspaces'')
     = Inr [\<lparr>Name = ''a'', ID = ''1''\<rparr>, \<lparr>Name = ''b'', ID = ''2''\<rparr>]"
  by (simp add: getWorkspaces_def world_ab_def urlPtr_fallback_def flags_all_def)

theorem aggregate_of_two_workspaces_witness:
  "getWorkspaces world_ab (urlPtr_fallback world_ab (flag_kong_addr flags_all) @ ''/workspaces'')
     = Inr [\<lparr>Name = ''a'', ID = ''1''\<rparr>, \<lparr>Name = ''b'', ID = ''2''\<rparr>]
   \<and> getMetadata_map world_ab
        (metaURL (urlPtr_fallback world_ab (flag_kong_addr flags_all)) ''a'') (flag_headers flags_all)
       = Inr \<lparr>Counts_map = [''plugins'' \<mapsto> 2]\<rparr>
   \<and> getMetadata_map world_ab
        (metaURL (urlPtr_fallback world_ab (flag_kong_addr flags_all)) ''b'') (flag_headers flags_all)
       = Inr \<lparr>Counts_map = [''plugins'' \<mapsto> 3, ''routes'' \<mapsto> 1]\<rparr>
   \<and> flag_meta flags_all = ''all''
   \<and> v_counts (main_map flags_all world_ab) = [''plugins'' \<mapsto> 5, ''routes'' \<mapsto> 1]
   \<and> (\<exists>fields. last (out (main_map flags_all world_ab))
         = Table [''Meta Field'', ''Count''] ([''Workspaces'', ''2''] # fields))
   \<and> last (out (main_map flags_all world_ab))
       = Table [''Meta Field'', ''Count'']
           [[''Workspaces'', ''2''], [''routes'', ''1''], [''plugins'', ''5'']]"
proof -
  have h2: "getMetadata_map world_ab
        (metaURL (urlPtr_fallback world_ab (flag_kong_addr flags_all)) (Name \<lparr>Name = ''a'', ID = ''1''\<rparr>))
        (flag_headers flags_all)
       = Inr \<lparr>Counts_map = [''plugins'' \<mapsto> 2]\<rparr>"
    by (simp add: getMetadata_map_def metadataRequest_map_def NewRequest_def world_ab_def
        metaURL_def urlPtr_fallback_def flags_all_def counts_a_def)
  have h3: "getMetadata_map world_ab
        (metaURL (urlPtr_fallback world_ab (flag_kong_addr flags_all)) (Name \<lparr>Name = ''b'', ID = ''2''\<rparr>))
        (flag_headers flags_all)
       = Inr \<lparr>Counts_map = [''plugins'' \<mapsto> 3, ''routes'' \<mapsto> 1]\<rparr>"
    by (simp add: getMetadata_map_def metadataRequest_map_def NewRequest_def world_ab_def
        metaURL_def urlPtr_fallback_def flags_all_def counts_b_def)
  have h4: "range_order (rangeOrder world_ab [''plugins'' \<mapsto> 2]) [''plugins'' \<mapsto> 2]"
    by (simp add: range_order_def world_ab_def)
  have h5: "range_order (rangeOrder world_ab [''plugins'' \<mapsto> 3, ''routes'' \<mapsto> 1])
              [''plugins'' \<mapsto> 3, ''routes'' \<mapsto> 1]"
    by (auto simp: range_order_def world_ab_def)
  have m: "flag_meta flags_all = ''all''"
    by (simp add: flags_all_def)
  note t = aggregate_of_two_workspaces [OF getWorkspaces_world_ab h2 h3 h4 h5]
  have full: "last (out (main_map flags_all world_ab))
       = Table [''Meta Field'', ''Count'']
           [[''Workspaces'', ''2''], [''routes'', ''1''], [''plugins'', ''5'']]"
    by code_simp
  from h2 h3 have "getMetadata_map world_ab
        (metaURL (urlPtr_fallback world_ab (flag_kong_addr flags_all)) ''a'') (flag_headers flags_all)
       = Inr \<lparr>Counts_map = [''plugins'' \<mapsto> 2]\<rparr>"
    and "getMetadata_map world_ab
        (metaURL (urlPtr_fallback world_ab (flag_kong_addr flags_all)) ''b'') (flag_headers flags_all)
       = Inr \<lparr>Counts_map = [''plugins'' \<mapsto> 3, ''routes'' \<mapsto> 1]\<rparr>"
    by simp_all
  with t m full getWorkspaces_world_ab show ?thesis by blast
qed

subsection \<open>Workspaces whose metadata cannot be fetched\<close>

lemma fetched_names:
  "map WorkspaceName (fetched get workspaces) = filter (\<lambda>name. \<not> isl (get name)) (map Name workspaces)"
  by (induction workspaces) (auto simp: fetched_def split: sum.splits)

lemma rows_names_refl:
  "map hd (rows (printWorkspaceMetadataTable_refl ms)) = map WorkspaceName ms"
  by (simp add: printWorkspaceMetadataTable_refl_def Let_def comp_def)

lemma rows_names_map:
  "map hd (rows (printWorkspaceMetadataTable_map ms)) = map WorkspaceName ms"
  by (simp add: printWorkspaceMetadataTable_map_def Let_def comp_def)

text \<open>
  C2, as amended. When the workspace list is fetched, in both versions the per-workspace
  table has one row for each workspace whose metadata fetch or decode does not fail, in
  the order of the list, and no row for the others; the aggregate is the merge of the
  metadata of exactly those rows. In the map version the \<open>Workspaces\<close> row, the first
  row of the totals table, holds the number of rows of the per-workspace table. (As the
  claim is stated it fails in the reflective version: see the counterexample below.)
\<close>

theorem failed_workspaces_are_skipped:
  assumes "getWorkspaces w (urlPtr_fallback w (flag_kong_addr fl) @ ''/workspaces'') = Inr workspaces"
  shows "butlast (out (main_refl fl w))
           = failures (metadata_of_refl fl w) workspaces
             @ [Line ''Individual Workspace Metadata:'',
                printWorkspaceMetadataTable_refl (fetched (metadata_of_refl fl w) workspaces),
                Line ''Total Entity Counts:'']
       \<and> map hd (rows (printWorkspaceMetadataTable_refl (fetched (metadata_of_refl fl w) workspaces)))
           = filter (\<lambda>name. \<not> isl (metadata_of_refl fl w name)) (map Name workspaces)
       \<and> v_counts (main_refl fl w)
           = aggregate_refl (fetched (metadata_of_refl fl w) workspaces) Map.empty
       \<and> out (main_map fl w)
           = failures (metadata_of_map fl w) workspaces
             @ (if flag_meta fl = ''workspace'' \<or> flag_meta fl = ''all'' then
                  [Line ''Individual Workspace Metadata:'',
                   printWorkspaceMetadataTable_map (fetched (metadata_of_map fl w) workspaces)]
                else [])
             @ (if flag_meta fl = ''counts'' \<or> flag_meta fl = ''all'' then
                  [Line ''Total Meta Field Counts:'',
                   printCountsTable_map (rangeOrder w (v_counts (main_map fl w))) (v_counts (main_map fl w))
                     (of_nat (length (rows (printWorkspaceMetadataTable_map
                        (fetched (metadata_of_map fl w) workspaces)))))]
                else [])
       \<and> map hd (rows (printWorkspaceMetadataTable_map (fetched (metadata_of_map fl w) workspaces)))
           = filter (\<lambda>name. \<not> isl (metadata_of_map fl w name)) (map Name workspaces)
       \<and> v_counts (main_map fl w)
           = aggregate_map w (fetched (metadata_of_map fl w) workspaces) Map.empty
       \<and> hd (rows (printCountsTable_map ks counts wc)) = [''Workspaces'', Itoa wc]"
proof (intro conjI)
  show "butlast (out (main_refl fl w))
           = failures (metadata_of_refl fl w) workspaces
             @ [Line ''Individual Workspace Metadata:'',
                printWorkspaceMetadataTable_refl (fetched (metadata_of_refl fl w) workspaces),
                Line ''Total Entity Counts:'']"
    unfolding main_refl_closed [OF assms] Let_def metadata_of_refl_def
    by (simp add: butlast_append)
  show "v_counts (main_refl fl w)
           = aggregate_refl (fetched (metadata_of_refl fl w) workspaces) Map.empty"
    unfolding main_refl_closed [OF assms] Let_def metadata_of_refl_def by simp
  show "v_counts (main_map fl w)
           = aggregate_map w (fetched (metadata_of_map fl w) workspaces) Map.empty"
    unfolding main_map_closed [OF assms] Let_def metadata_of_map_def by simp
  show "out (main_map fl w)
           = failures (metadata_of_map fl w) workspaces
             @ (if flag_meta fl = ''workspace'' \<or> flag_meta fl = ''all'' then
                  [Line ''Individual Workspace Metadata:'',
                   printWorkspaceMetadataTable_map (fetched (metadata_of_map fl w) workspaces)]
                else [])
             @ (if flag_meta fl = ''counts'' \<or> flag_meta fl = ''all'' then
                  [Line ''Total Meta Field Counts:'',
                   printCountsTable_map (rangeOrder w (v_counts (main_map fl w))) (v_counts (main_map fl w))
                     (of_nat (length (rows (printWorkspaceMetadataTable_map
                        (fetched (metadata_of_map fl w) workspaces)))))]
                else [])"
    unfolding main_map_closed [OF assms] Let_def metadata_of_map_def
    by (simp add: printWorkspaceMetadataTable_map_def)
  show "hd (rows (printCountsTable_map ks counts wc)) = [''Workspaces'', Itoa wc]"
    by (simp add: printCountsTable_map_def Let_def)
qed (simp_all only: rows_names_refl rows_names_map fetched_names)

lemma getWorkspaces_world_b_refused:
  "getWorkspaces world_b_refused
       (urlPtr_fallback world_b_refused (flag_kong_addr flags_all) @ ''/workspaces'')
     = Inr [\<lparr>Name = ''a'', ID = ''1''\<rparr>, \<lparr>Name = ''b'', ID = ''2''\<rparr>]"
  by (simp add: getWorkspaces_def world_b_refused_def world_ab_def urlPtr_fallback_def flags_all_def)

lemma metadata_of_map_a:
  "metadata_of_map flags_all world_b_refused ''a'' = Inr \<lparr>Counts_map = counts_a\<rparr>"
  by (simp add: metadata_of_map_def getMetadata_map_def metadataRequest_map_def NewRequest_def
      world_b_refused_def world_ab_def metaURL_def urlPtr_fallback_def flags_all_def)

lemma metadata_of_map_b:
  "metadata_of_map flags_all world_b_refused ''b'' = Inl (Error ''connection refused'')"
  by (simp add: metadata_of_map_def getMetadata_map_def metadataRequest_map_def NewRequest_def
      world_b_refused_def world_ab_def metaURL_def urlPtr_fallback_def flags_all_def)

lemma rangeOrder_counts_a: "rangeOrder world_b_refused counts_a = [''plugins'']"
  by (simp add: world_b_refused_def world_ab_def counts_a_def)

text \<open>
  The example of C2, map version: \<open>a\<close> and \<open>b\<close> with the connection for \<open>b\<close> refused.
\<close>

theorem failed_workspaces_are_skipped_witness:
  "getWorkspaces world_b_refused
       (urlPtr_fallback world_b_refused (flag_kong_addr flags_all) @ ''/workspaces'')
     = Inr [\<lparr>Name = ''a'', ID = ''1''\<rparr>, \<lparr>Name = ''b'', ID = ''2''\<rparr>]
   \<and> metadata_of_map flags_all world_b_refused ''b'' = Inl (Error ''connection refused'')
   \<and> map hd (rows (printWorkspaceMetadataTable_map (fetched (metadata_of_map flags_all world_b_refused)
         [\<lparr>Name = ''a'', ID = ''1''\<rparr>, \<lparr>Name = ''b'', ID = ''2''\<rparr>]))) = [''a'']
   \<and> v_counts (main_map flags_all world_b_refused) = [''plugins'' \<mapsto> 2]
   \<and> out (main_map flags_all world_b_refused)
       = [Line ''Error getting metadata for workspace b: connection refused'',
          Line ''Individual Workspace Metadata:'',
          Table [''Workspace Name'', ''Plugins'', ''Targets'', ''Services'', ''Routes'', ''Upstreams'']
            [[''a'', ''2'', ''0'', ''0'', ''0'', ''0'']],
          Line ''Total Meta Field Counts:'',
          Table [''Meta Field'', ''Count''] [[''Workspaces'', ''1''], [''plugins'', ''2'']]]"
proof -
  note t = failed_workspaces_are_skipped [OF getWorkspaces_world_b_refused, of "[]" Map.empty 0]
  have names: "map hd (rows (printWorkspaceMetadataTable_map (fetched (metadata_of_map flags_all world_b_refused)
         [\<lparr>Name = ''a'', ID = ''1''\<rparr>, \<lparr>Name = ''b'', ID = ''2''\<rparr>]))) = [''a'']"
    using t by (simp add: metadata_of_map_a metadata_of_map_b)
  have f: "fetched (metadata_of_map flags_all world_b_refused)
             [\<lparr>Name = ''a'', ID = ''1''\<rparr>, \<lparr>Name = ''b'', ID = ''2''\<rparr>]
           = [\<lparr>WorkspaceName = ''a'', Meta = \<lparr>Counts_map = counts_a\<rparr>\<rparr>]"
    by (simp add: fetched_def metadata_of_map_a metadata_of_map_b)
  have "v_counts (main_map flags_all world_b_refused)
          = aggregate_map world_b_refused [\<lparr>WorkspaceName = ''a'', Meta = \<lparr>Counts_map = counts_a\<rparr>\<rparr>] Map.empty"
    using t f by simp
  also have "\<dots> = merged counts_a Map.empty"
    by (simp add: aggregate_map_def rangeOrder_counts_a updateCounts_map_merged [OF range_order_counts_a])
  also have "\<dots> = [''plugins'' \<mapsto> 2]"
    by (auto simp: merged_def counts_a_def index_map_def fun_eq_iff)
  finally have agg: "v_counts (main_map flags_all world_b_refused) = [''plugins'' \<mapsto> 2]" .
  have printed: "out (main_map flags_all world_b_refused)
       = [Line ''Error getting metadata for workspace b: connection refused'',
          Line ''Individual Workspace Metadata:'',
          Table [''Workspace Name'', ''Plugins'', ''Targets'', ''Services'', ''Routes'', ''Upstreams'']
            [[''a'', ''2'', ''0'', ''0'', ''0'', ''0'']],
          Line ''Total Meta Field Counts:'',
          Table [''Meta Field'', ''Count''] [[''Workspaces'', ''1''], [''plugins'', ''2'']]]"
    by code_simp
  show ?thesis
    by (intro conjI getWorkspaces_world_b_refused metadata_of_map_b names agg printed)
qed

text \<open>
  The same world in the reflective version: the per-workspace table has the one row of
  \<open>a\<close>, but the \<open>Workspaces\<close> row reads \<open>2\<close>, the length of the workspace list
  (\<open>len(workspaces)\<close>, line 98), and the key of the aggregate is the name of the struct
  field, \<open>Plugins\<close>, not \<open>plugins\<close>.
\<close>

theorem workspaces_row_counts_failed_workspace_counterexample:
  "out (main_refl flags_all world_b_refused)
     = [Line ''Error getting metadata for workspace b: connection refused'',
        Line ''Individual Workspace Metadata:'',
        Table [''Workspace'', ''Plugins'', ''Targets'', ''Services'', ''Routes'', ''Upstreams'']
          [[''a'', ''2'', ''0'', ''0'', ''0'', ''0'']],
        Line ''Total Entity Counts:'',
        Table [''Meta Field'', ''Count''] [[''Plugins'', ''2''], [''Workspaces'', ''2'']]]
   \<and> v_counts (main_refl flags_all world_b_refused) ''plugins'' = None
   \<and> v_counts (main_refl flags_all world_b_refused) ''Plugins'' = Some 2"
  by code_simp

subsection \<open>Zero-valued fields\<close>

lemma aggregate_refl_fold:
  "aggregate_refl ms c
     = fold add_field (concat (map (\<lambda>wm. int_fields (ValueOf_Metadata (Meta wm))) ms)) c"
  unfolding aggregate_refl_def
  by (induction ms arbitrary: c) (simp_all add: updateCounts_refl_fold)

lemma aggregate_refl_present:
  "aggregate_refl ms Map.empty k \<noteq> None
     \<longleftrightarrow> (\<exists>wm \<in> set ms. \<exists>v. (k, v) \<in> set (int_fields (ValueOf_Metadata (Meta wm))) \<and> v \<noteq> 0)"
  unfolding aggregate_refl_fold fold_add_field_dom by auto

lemma main_refl_counts:
  "v_counts (main_refl fl w) = aggregate_refl (v_workspaceMetadataList (main_refl fl w)) Map.empty"
  by (cases "getWorkspaces w (urlPtr_fallback w (flag_kong_addr fl) @ ''/workspaces'')")
     (simp_all add: main_refl_fatal main_refl_closed Let_def aggregate_refl_def)

text \<open>
  C7. Reflective version. At the end of \<open>main\<close> the aggregate has no entry for a counter
  exactly when that field is zero in the metadata of every workspace that was fetched: a
  field whose value is zero adds nothing, not even a zero entry. The keys are the names of
  the five struct fields; no other key is ever present.
\<close>

theorem zero_fields_leave_no_entry:
  "(v_counts (main_refl fl w) ''Plugins'' = None
      \<longleftrightarrow> list_all (\<lambda>wm. Plugins (Counts_refl (Meta wm)) = 0) (v_workspaceMetadataList (main_refl fl w)))
   \<and> (v_counts (main_refl fl w) ''Targets'' = None
      \<longleftrightarrow> list_all (\<lambda>wm. Targets (Counts_refl (Meta wm)) = 0) (v_workspaceMetadataList (main_refl fl w)))
   \<and> (v_counts (main_refl fl w) ''Services'' = None
      \<longleftrightarrow> list_all (\<lambda>wm. Services (Counts_refl (Meta wm)) = 0) (v_workspaceMetadataList (main_refl fl w)))
   \<and> (v_counts (main_refl fl w) ''Routes'' = None
      \<longleftrightarrow> list_all (\<lambda>wm. Routes (Counts_refl (Meta wm)) = 0) (v_workspaceMetadataList (main_refl fl w)))
   \<and> (v_counts (main_refl fl w) ''Upstreams'' = None
      \<longleftrightarrow> list_all (\<lambda>wm. Upstreams (Counts_refl (Meta wm)) = 0) (v_workspaceMetadataList (main_refl fl w)))
   \<and> (k \<notin> set [''Plugins'', ''Targets'', ''Services'', ''Routes'', ''Upstreams'']
        \<longrightarrow> v_counts (main_refl fl w) k = None)"
proof -
  have p: "v_counts (main_refl fl w) k = None
      \<longleftrightarrow> (\<forall>wm \<in> set (v_workspaceMetadataList (main_refl fl w)).
             \<forall>v. (k, v) \<in> set (int_fields (ValueOf_Metadata (Meta wm))) \<longrightarrow> v = 0)" for k
    using aggregate_refl_present [of "v_workspaceMetadataList (main_refl fl w)" k]
    unfolding main_refl_counts [symmetric] by blast
  show ?thesis
    by (simp add: p int_fields_Metadata list_all_iff)
qed

theorem zero_fields_leave_no_entry_witness:
  "list_all (\<lambda>wm. Targets (Counts_refl (Meta wm)) = 0)
     (v_workspaceMetadataList (main_refl flags_all world_ab))
   \<and> v_counts (main_refl flags_all world_ab) ''Targets'' = None
   \<and> map (\<lambda>wm. Routes (Counts_refl (Meta wm))) (v_workspaceMetadataList (main_refl flags_all world_ab))
       = [0, 1]
   \<and> v_counts (main_refl flags_all world_ab) ''Routes'' = Some 1
   \<and> ''counts'' \<notin> set [''Plugins'', ''Targets'', ''Services'', ''Routes'', ''Upstreams'']
   \<and> v_counts (main_refl flags_all world_ab) ''counts'' = None"
proof -
  note t = zero_fields_leave_no_entry [of flags_all world_ab "''counts''"]
  have z: "list_all (\<lambda>wm. Targets (Counts_refl (Meta wm)) = 0)
     (v_workspaceMetadataList (main_refl flags_all world_ab))"
    by code_simp
  with t have 1: "v_counts (main_refl flags_all world_ab) ''Targets'' = None"
    by blast
  have 2: "map (\<lambda>wm. Routes (Counts_refl (Meta wm))) (v_workspaceMetadataList (main_refl flags_all world_ab))
       = [0, 1]"
    by code_simp
  have 3: "v_counts (main_refl flags_all world_ab) ''Routes'' = Some 1"
    by code_simp
  have 4: "''counts'' \<notin> set [''Plugins'', ''Targets'', ''Services'', ''Routes'', ''Upstreams'']"
    by simp
  with t have 5: "v_counts (main_refl flags_all world_ab) ''counts'' = None"
    by blast
  show ?thesis
    by (intro conjI z 1 2 3 4 5)
qed

subsection \<open>The order of the totals\<close>

lemma set_insert_Slice: "set (insert_Slice lt x ys) = insert x (set ys)"
  by (induction ys) auto

lemma sorted_insert_Slice:
  fixes f :: "'a \<Rightarrow> int"
  assumes "sorted (map f ys)"
  shows "sorted (map f (insert_Slice (\<lambda>a b. f a < f b) x ys))"
  using assms by (induction ys) (auto simp: set_insert_Slice)

lemma sorted_sort_Slice:
  fixes f :: "'a \<Rightarrow> int"
  shows "sorted (map f (sort_Slice (\<lambda>a b. f a < f b) xs))"
  by (induction xs) (simp_all add: sorted_insert_Slice)

lemma mset_insert_Slice: "mset (insert_Slice lt x ys) = add_mset x (mset ys)"
  by (induction ys) auto

lemma mset_sort_Slice: "mset (sort_Slice lt xs) = mset xs"
  by (induction xs) (simp_all add: mset_insert_Slice)

text \<open>
  C8, as amended. Map version. The totals table is the row \<open>Workspaces\<close> followed by one
  row for each entry of the aggregate, and the rows after the \<open>Workspaces\<close> row are in
  non-decreasing order of their counts: each count is at most the count of every later
  row. The \<open>Workspaces\<close> row is appended first (line 433) whatever its count, so the
  table as a whole need not be ordered: see the counterexample below.
\<close>

theorem meta_field_rows_sorted:
  "\<exists>metaFields.
     rows (printCountsTable_map ks counts workspaceCount)
       = [''Workspaces'', Itoa workspaceCount]
         # map (\<lambda>metaField. [Field metaField, Itoa (Count metaField)]) metaFields
     \<and> mset metaFields
         = mset (map (\<lambda>(field, cnt). \<lparr>Field = field, Count = cnt\<rparr>) (range_entries ks counts))
     \<and> count_column (tl (rows (printCountsTable_map ks counts workspaceCount)))
         = map (\<lambda>metaField. Some (sint (Count metaField))) metaFields
     \<and> sorted (map (\<lambda>metaField. sint (Count metaField)) metaFields)"
proof -
  let ?ms = "sort_Slice (\<lambda>a b. sint (Count a) < sint (Count b))
               (map (\<lambda>(field, cnt). \<lparr>Field = field, Count = cnt\<rparr>) (range_entries ks counts))"
  have "rows (printCountsTable_map ks counts workspaceCount)
       = [''Workspaces'', Itoa workspaceCount]
         # map (\<lambda>metaField. [Field metaField, Itoa (Count metaField)]) ?ms"
    by (simp add: printCountsTable_map_def Let_def)
  moreover have "mset ?ms
         = mset (map (\<lambda>(field, cnt). \<lparr>Field = field, Count = cnt\<rparr>) (range_entries ks counts))"
    by (rule mset_sort_Slice)
  moreover have "count_column (tl (rows (printCountsTable_map ks counts workspaceCount)))
         = map (\<lambda>metaField. Some (sint (Count metaField))) ?ms"
    by (simp add: printCountsTable_map_def Let_def count_column_def parse_decimal_Itoa comp_def)
  moreover have "sorted (map (\<lambda>metaField. sint (Count metaField)) ?ms)"
    by (rule sorted_sort_Slice)
  ultimately show ?thesis by blast
qed

theorem meta_field_rows_sorted_witness:
  "rows (printCountsTable_map [''plugins'', ''routes''] [''plugins'' \<mapsto> 5, ''routes'' \<mapsto> 1] 2)
     = [[''Workspaces'', ''2''], [''routes'', ''1''], [''plugins'', ''5'']]
   \<and> count_column (tl (rows (printCountsTable_map [''plugins'', ''routes'']
                              [''plugins'' \<mapsto> 5, ''routes'' \<mapsto> 1] 2)))
       = [Some 1, Some 5]
   \<and> (\<exists>metaFields :: MetaField list.
        count_column (tl (rows (printCountsTable_map [''plugins'', ''routes'']
                              [''plugins'' \<mapsto> 5, ''routes'' \<mapsto> 1] 2)))
          = map (\<lambda>metaField. Some (sint (Count metaField))) metaFields
        \<and> sorted (map (\<lambda>metaField. sint (Count metaField)) metaFields))"
proof -
  have 1: "rows (printCountsTable_map [''plugins'', ''routes''] [''plugins'' \<mapsto> 5, ''routes'' \<mapsto> 1] 2)
     = [[''Workspaces'', ''2''], [''routes'', ''1''], [''plugins'', ''5'']]"
    by code_simp
  have 2: "count_column (tl (rows (printCountsTable_map [''plugins'', ''routes'']
                              [''plugins'' \<mapsto> 5, ''routes'' \<mapsto> 1] 2)))
       = [Some 1, Some 5]"
    by code_simp
  from meta_field_rows_sorted [of "[''plugins'', ''routes'']" "[''plugins'' \<mapsto> 5, ''routes'' \<mapsto> 1]" 2]
  have 3: "\<exists>metaFields :: MetaField list.
        count_column (tl (rows (printCountsTable_map [''plugins'', ''routes'']
                              [''plugins'' \<mapsto> 5, ''routes'' \<mapsto> 1] 2)))
          = map (\<lambda>metaField. Some (sint (Count metaField))) metaFields
        \<and> sorted (map (\<lambda>metaField. sint (Count metaField)) metaFields)"
    by blast
  show ?thesis by (intro conjI 1 2 3)
qed

text \<open>
  The world of C1: the totals table reads \<open>Workspaces 2\<close>, \<open>routes 1\<close>, \<open>plugins 5\<close>, and
  the count of its first row is greater than that of its second.
\<close>

theorem workspaces_row_breaks_order_counterexample:
  "rows (last (out (main_map flags_all world_ab)))
     = [[''Workspaces'', ''2''], [''routes'', ''1''], [''plugins'', ''5'']]
   \<and> count_column (rows (last (out (main_map flags_all world_ab)))) = [Some 2, Some 1, Some 5]
   \<and> \<not> sorted [2, 1, 5 :: int]"
  by code_simp

subsection \<open>Headers\<close>

lemma Split_nonempty: "Split s sep \<noteq> []"
  by (induction s) (auto split: list.splits)

lemma length_Split: "length (Split s sep) = Suc (count_list s sep)"
proof (induction s)
  case Nil
  then show ?case by simp
next
  case (Cons c s)
  then show ?case
    using Split_nonempty [of s sep] by (cases "Split s sep") auto
qed

lemma Split_no_sep: "count_list s sep = 0 \<Longrightarrow> Split s sep = [s]"
proof (induction s)
  case Nil
  then show ?case by simp
next
  case (Cons c s)
  then show ?case by (auto split: if_splits)
qed

lemma Split_one_sep:
  "count_list s sep = 1 \<Longrightarrow>
   Split s sep = [takeWhile (\<lambda>c. c \<noteq> sep) s, tl (dropWhile (\<lambda>c. c \<noteq> sep) s)]"
proof (induction s)
  case Nil
  then show ?case by simp
next
  case (Cons c s)
  show ?case
  proof (cases "c = sep")
    case True
    with Cons.prems have "count_list s sep = 0" by simp
    with True show ?thesis by (simp add: Split_no_sep)
  next
    case False
    with Cons.prems have "count_list s sep = 1" by simp
    with False Cons.IH show ?thesis by simp
  qed
qed

lemma canonical_token_key: "CanonicalMIMEHeaderKey ''x-admin-token'' = ''X-Admin-Token''"
  by code_simp

lemma metadataRequest_map_Header:
  "metadataRequest_map w url headers = Inr req \<Longrightarrow> Header req = header_of_flag headers"
proof (cases "count_list headers (CHR '':'') = 1")
  case True
  assume "metadataRequest_map w url headers = Inr req"
  with True show ?thesis
    by (auto simp: metadataRequest_map_def NewRequest_def Let_def header_of_flag_def Header_Set_def
        length_Split Split_one_sep split: option.splits if_splits)
next
  case False
  assume "metadataRequest_map w url headers = Inr req"
  with False show ?thesis
    by (auto simp: metadataRequest_map_def NewRequest_def Let_def header_of_flag_def
        length_Split split: option.splits if_splits)
qed

lemma getHeaders_closed:
  "getHeaders w headersFlag =
     (if Getenv w ''X_ADMIN_TOKEN'' \<noteq> [] then
        (header_of_flag headersFlag)(''X-Admin-Token'' \<mapsto> [Getenv w ''X_ADMIN_TOKEN''])
      else header_of_flag headersFlag)"
proof (cases "count_list headersFlag (CHR '':'') = 1")
  case True
  then have "headersFlag \<noteq> []" by auto
  with True show ?thesis
    by (simp add: getHeaders_def Let_def header_of_flag_def Header_Set_def length_Split
        Split_one_sep canonical_token_key)
next
  case False
  then show ?thesis
    by (simp add: getHeaders_def Let_def header_of_flag_def Header_Set_def length_Split
        canonical_token_key)
qed

lemma metadataRequest_refl_Header:
  "metadataRequest_refl w url headers = Inr req \<Longrightarrow> Header req = headers"
  by (auto simp: metadataRequest_refl_def NewRequest_def split: option.splits)

lemma requests_all:
  assumes "\<And>name req. mk name = Inr req \<Longrightarrow> P req"
  shows "list_all P (requests mk workspaces)"
  by (induction workspaces) (auto simp: requests_def assms split: sum.splits)

lemma sends_main_map:
  "list_all (\<lambda>req. Header req = header_of_flag (flag_headers fl)) (sends (main_map fl w))"
  by (cases "getWorkspaces w (urlPtr_fallback w (flag_kong_addr fl) @ ''/workspaces'')")
     (simp_all add: main_map_fatal main_map_closed Let_def requests_all metadataRequest_map_Header)

lemma sends_main_refl:
  "list_all (\<lambda>req. Header req = getHeaders w (flag_headers fl)) (sends (main_refl fl w))"
  by (cases "getWorkspaces w (urlPtr_fallback w (flag_kong_addr fl) @ ''/workspaces'')")
     (simp_all add: main_refl_fatal main_refl_closed Let_def requests_all metadataRequest_refl_Header)

text \<open>
  C6, as amended. Every metadata request of the map version carries exactly the header map
  that the \<open>--headers\<close> flag stands for: for a flag with exactly one colon, the one header
  whose key is the trimmed text before the colon, stored in canonical form (so that it is
  read back under the key as given, in any letter case), and whose value is the trimmed
  text after it; for any other flag, no header. Every metadata request of the reflective
  version carries the same map when \<open>X_ADMIN_TOKEN\<close> is empty, and that map with
  \<open>X-Admin-Token\<close> set to the variable otherwise. (As the claim is stated it fails in the
  reflective version when the variable is set: see the counterexample below.)
\<close>

theorem headers_flag_gives_one_header:
  "list_all (\<lambda>req. Header req = header_of_flag (flag_headers fl)) (sends (main_map fl w))
   \<and> list_all (\<lambda>req. Header req =
         (if Getenv w ''X_ADMIN_TOKEN'' = [] then header_of_flag (flag_headers fl)
          else (header_of_flag (flag_headers fl))(''X-Admin-Token'' \<mapsto> [Getenv w ''X_ADMIN_TOKEN''])))
       (sends (main_refl fl w))
   \<and> (count_list headersFlag (CHR '':'') \<noteq> 1 \<longrightarrow> header_of_flag headersFlag = Map.empty)
   \<and> (count_list headersFlag (CHR '':'') = 1 \<longrightarrow>
        header_of_flag headersFlag
          = [CanonicalMIMEHeaderKey (TrimSpace (takeWhile (\<lambda>c. c \<noteq> CHR '':'') headersFlag))
               \<mapsto> [TrimSpace (tl (dropWhile (\<lambda>c. c \<noteq> CHR '':'') headersFlag))]]
        \<and> Header_Get (header_of_flag headersFlag) (TrimSpace (takeWhile (\<lambda>c. c \<noteq> CHR '':'') headersFlag))
          = TrimSpace (tl (dropWhile (\<lambda>c. c \<noteq> CHR '':'') headersFlag)))"
proof (intro conjI)
  show "list_all (\<lambda>req. Header req = header_of_flag (flag_headers fl)) (sends (main_map fl w))"
    by (rule sends_main_map)
  show "list_all (\<lambda>req. Header req =
         (if Getenv w ''X_ADMIN_TOKEN'' = [] then header_of_flag (flag_headers fl)
          else (header_of_flag (flag_headers fl))(''X-Admin-Token'' \<mapsto> [Getenv w ''X_ADMIN_TOKEN''])))
       (sends (main_refl fl w))"
    using sends_main_refl [of w fl]
    by (cases "Getenv w ''X_ADMIN_TOKEN'' = []") (simp_all add: getHeaders_closed)
qed (simp_all add: header_of_flag_def Header_Get_def)

theorem headers_flag_gives_one_header_witness:
  "count_list (flag_headers flags_spaced) (CHR '':'') = 1
   \<and> length (sends (main_map flags_spaced world_ab)) = 2
   \<and> list_all (\<lambda>req. Header req = [''X-Admin-Token'' \<mapsto> [''secret'']])
       (sends (main_map flags_spaced world_ab))
   \<and> length (sends (main_refl flags_spaced world_ab)) = 2
   \<and> list_all (\<lambda>req. Header req = [''X-Admin-Token'' \<mapsto> [''secret'']])
       (sends (main_refl flags_spaced world_ab))
   \<and> Header_Get (header_of_flag '' x-admin-token : secret '') ''x-admin-token'' = ''secret''
   \<and> count_list ''a:b:c'' (CHR '':'') \<noteq> 1
   \<and> header_of_flag ''a:b:c'' = Map.empty"
proof -
  note t = headers_flag_gives_one_header [of flags_spaced world_ab "''a:b:c''"]
  note u = headers_flag_gives_one_header [of flags_spaced world_ab "'' x-admin-token : secret ''"]
  have c: "count_list '' x-admin-token : secret '' (CHR '':'') = 1"
    by simp
  have k: "TrimSpace (takeWhile (\<lambda>c. c \<noteq> CHR '':'') '' x-admin-token : secret '') = ''x-admin-token''"
    by code_simp
  have v: "TrimSpace (tl (dropWhile (\<lambda>c. c \<noteq> CHR '':'') '' x-admin-token : secret '')) = ''secret''"
    by code_simp
  have e: "header_of_flag (flag_headers flags_spaced) = [''X-Admin-Token'' \<mapsto> [''secret'']]"
    using u c unfolding k v canonical_token_key by (simp add: flags_spaced_def)
  have g: "Getenv world_ab ''X_ADMIN_TOKEN'' = []"
    by (simp add: world_ab_def)
  have 1: "count_list (flag_headers flags_spaced) (CHR '':'') = 1"
    by (simp add: flags_spaced_def)
  have 2: "length (sends (main_map flags_spaced world_ab)) = 2"
    by code_simp
  have 3: "list_all (\<lambda>req. Header req = [''X-Admin-Token'' \<mapsto> [''secret'']])
             (sends (main_map flags_spaced world_ab))"
    using t unfolding e by simp
  have 4: "length (sends (main_refl flags_spaced world_ab)) = 2"
    by code_simp
  have 5: "list_all (\<lambda>req. Header req = [''X-Admin-Token'' \<mapsto> [''secret'']])
             (sends (main_refl flags_spaced world_ab))"
    using t unfolding e g by simp
  have 6: "Header_Get (header_of_flag '' x-admin-token : secret '') ''x-admin-token'' = ''secret''"
    using u c unfolding k v by (simp add: Header_Get_def)
  have 7: "count_list ''a:b:c'' (CHR '':'') \<noteq> 1"
    by simp
  with t have 8: "header_of_flag ''a:b:c'' = Map.empty"
    by blast
  show ?thesis
    by (intro conjI 1 2 3 4 5 6 7 8)
qed

text \<open>
  The flag \<open>x-admin-token:secret\<close> with \<open>X_ADMIN_TOKEN=other\<close>, reflective version: both
  metadata requests carry \<open>other\<close>, not \<open>secret\<close>.
\<close>

theorem token_variable_replaces_flag_header_counterexample:
  "flag_headers flags_secret = ''x-admin-token:secret''
   \<and> Getenv world_token ''X_ADMIN_TOKEN'' = ''other''
   \<and> map (\<lambda>req. Header_Get (Header req) ''x-admin-token'') (sends (main_refl flags_secret world_token))
       = [''other'', ''other'']
   \<and> map (\<lambda>req. Header req ''X-Admin-Token'') (sends (main_refl flags_secret world_token))
       = [Some [''other''], Some [''other'']]"
  by code_simp

text \<open>
  C10. Reflective version. When \<open>X_ADMIN_TOKEN\<close> is not empty, then for every value of the
  \<open>--headers\<close> flag (one that sets \<open>x-admin-token\<close>, in any letter case, included) the
  header map of \<open>getHeaders\<close> holds under \<open>X-Admin-Token\<close> the value of the variable and
  nothing else, \<open>Header.Get("x-admin-token")\<close> reads it, and every metadata request of
  \<open>main\<close> carries it.
\<close>

theorem token_variable_overrides_flag:
  assumes "Getenv w ''X_ADMIN_TOKEN'' \<noteq> []"
  shows "getHeaders w headersFlag ''X-Admin-Token'' = Some [Getenv w ''X_ADMIN_TOKEN'']
       \<and> Header_Get (getHeaders w headersFlag) ''x-admin-token'' = Getenv w ''X_ADMIN_TOKEN''
       \<and> list_all (\<lambda>req. Header_Get (Header req) ''x-admin-token'' = Getenv w ''X_ADMIN_TOKEN'')
           (sends (main_refl fl w))"
proof -
  have 1: "getHeaders w h ''X-Admin-Token'' = Some [Getenv w ''X_ADMIN_TOKEN'']" for h
    using assms by (simp add: getHeaders_closed)
  then have 2: "Header_Get (getHeaders w h) ''x-admin-token'' = Getenv w ''X_ADMIN_TOKEN''" for h
    by (simp add: Header_Get_def canonical_token_key)
  have "list_all (\<lambda>req. Header_Get (Header req) ''x-admin-token'' = Getenv w ''X_ADMIN_TOKEN'')
           (sends (main_refl fl w))"
    using sends_main_refl [of w fl] by (simp add: list_all_iff 2)
  with 1 2 show ?thesis by simp
qed

theorem token_variable_overrides_flag_witness:
  "Getenv world_token ''X_ADMIN_TOKEN'' \<noteq> []
   \<and> Getenv world_token ''X_ADMIN_TOKEN'' = ''other''
   \<and> getHeaders world_token ''x-admin-token:secret'' ''X-Admin-Token'' = Some [''other'']
   \<and> Header_Get (getHeaders world_token ''x-admin-token:secret'') ''x-admin-token'' = ''other''
   \<and> length (sends (main_refl flags_secret world_token)) = 2
   \<and> list_all (\<lambda>req. Header_Get (Header req) ''x-admin-token'' = ''other'')
       (sends (main_refl flags_secret world_token))"
proof -
  have g: "Getenv world_token ''X_ADMIN_TOKEN'' = ''other''"
    by (simp add: world_token_def)
  then have h: "Getenv world_token ''X_ADMIN_TOKEN'' \<noteq> []"
    by simp
  note t = token_variable_overrides_flag [OF h, of "''x-admin-token:secret''" flags_secret]
  have n: "length (sends (main_refl flags_secret world_token)) = 2"
    by code_simp
  from t g h n show ?thesis by simp
qed

end
